theory Spec2Isabelle
  imports Complex_Main "HOL-Library.Word" "HOL-Library.Multiset"
begin

unbundle bit_operations_syntax

section \<open>Conduit: Node trees, Mesh Blueprint converters and the partition driver\<close>

text \<open>
  A shallow embedding of the parts of Conduit that the properties below are about:
  \<^item> \<^verbatim>\<open>conduit::utils::join_file_path\<close> (Utils.cpp);
  \<^item> the protocol dispatch \<^verbatim>\<open>mesh::verify(protocol, n, info)\<close>, \<^verbatim>\<open>mesh::verify(n, info)\<close>
    and \<^verbatim>\<open>verify_multi_domain\<close> (conduit_blueprint_mesh.cpp);
  \<^item> the coordset and topology converters \<^verbatim>\<open>convert_coordset_to_explicit\<close>,
    \<^verbatim>\<open>convert_topology_to_unstructured\<close> and \<^verbatim>\<open>topology::unstructured::to_polygonal\<close>
    (conduit_blueprint_mesh.cpp);
  \<^item> the mapping of a vertex-associated field onto generated sides,
    \<^verbatim>\<open>detail::vertex_associated_field\<close> (conduit_blueprint_mesh.cpp);
  \<^item> the compile-time width checks, \<^verbatim>\<open>generate_global_element_and_vertex_ids\<close> and the
    entry of \<^verbatim>\<open>generate_partition_field\<close> (conduit_blueprint_mpi_mesh_parmetis.cpp).
  Integers of the source (\<^verbatim>\<open>index_t\<close>, \<^verbatim>\<open>int64\<close>, \<^verbatim>\<open>uint64\<close>) that count elements, vertices or
  children are modelled as \<open>nat\<close>: no count of a mesh that fits in memory reaches the
  width of these types. \<^verbatim>\<open>size_t\<close> is a 64-bit word where the wrap-around of a conversion
  matters. A function whose source can raise a fatal error or run into undefined
  behaviour returns an \<open>option\<close> or a sum, and \<open>None\<close> or \<open>Inl\<close> is that outcome.
\<close>

subsection \<open>Errors\<close>

datatype error =
    Subscript_out_of_range nat nat
      \<comment> \<open>a subscript \<open>s[pos]\<close> with \<open>pos > s.size()\<close>: the position and the size\<close>

subsection \<open>Utils.cpp: join\_file\_path\<close>

type_synonym size_t = "64 word"

text \<open>
  \<^verbatim>\<open>std::string::operator[](size_type pos)\<close>: the character at \<open>pos\<close> when \<open>pos < size()\<close>,
  the null character when \<open>pos = size()\<close>, undefined behaviour beyond (an error here).
\<close>

definition string_subscript :: "string \<Rightarrow> size_t \<Rightarrow> error + char" where
  "string_subscript s pos =
     (if unat pos < length s then Inr (s ! unat pos)
      else if unat pos = length s then Inr (CHR 0x00)
      else Inl (Subscript_out_of_range (unat pos) (length s)))"

text \<open>
  \<^verbatim>\<open>
  std::string res = left;
  if(res.size() > 0 && res[-1] != CONDUIT_UTILS_FILE_PATH_SEPARATOR)
  {   res += CONDUIT_UTILS_FILE_PATH_SEPARATOR;   }
  res += right;
  return res;
  \<close>
  The literal \<open>-1\<close> is an \<open>int\<close>; the parameter of \<open>operator[]\<close> is the unsigned \<open>size_t\<close>,
  so the argument is converted (\<open>word_of_int\<close>). The separator macro is a parameter.
  \<open>&&\<close> evaluates the subscript only for a non-empty \<open>res\<close>.
\<close>

definition join_file_path :: "char \<Rightarrow> string \<Rightarrow> string \<Rightarrow> error + string" where
  "join_file_path sep left right =
     (let res = left in
      if length res > 0 then
        (case string_subscript res (word_of_int (- 1)) of
           Inl e \<Rightarrow> Inl e
         | Inr c \<Rightarrow> Inr ((if c \<noteq> sep then res @ [sep] else res) @ right))
      else Inr (res @ right))"

subsection \<open>Node trees\<close>

text \<open>
  A Node is empty, a leaf (its data kept abstract), an object (children in insertion order,
  each with its name) or a list of children.
\<close>

datatype 'a node =
    Empty_node
  | Leaf_node 'a
  | Object_node "(string \<times> 'a node) list"
  | List_node "'a node list"

fun is_object :: "'a node \<Rightarrow> bool" where
  "is_object (Object_node cs) = True"
| "is_object n = False"

fun is_list :: "'a node \<Rightarrow> bool" where
  "is_list (List_node cs) = True"
| "is_list n = False"

fun is_empty :: "'a node \<Rightarrow> bool" where
  "is_empty Empty_node = True"
| "is_empty n = False"

fun has_child :: "'a node \<Rightarrow> string \<Rightarrow> bool" where
  "has_child (Object_node cs) name = (name \<in> set (map fst cs))"
| "has_child n name = False"

fun children :: "'a node \<Rightarrow> 'a node list" where
  "children (Object_node cs) = map snd cs"
| "children (List_node cs) = cs"
| "children n = []"

definition number_of_children :: "'a node \<Rightarrow> nat" where
  "number_of_children n = length (children n)"

subsection \<open>conduit\_blueprint\_mesh.cpp: verify\<close>

text \<open>
  \<^verbatim>\<open>verify_multi_domain(n, info)\<close>. The verifier of one domain, \<^verbatim>\<open>verify_single_domain\<close>, is
  the parameter \<open>vsd\<close>; the messages written to \<open>info\<close> are not modelled, the returned
  \<open>bool\<close> is. The loop over the children is \<^verbatim>\<open>res &= verify_single_domain(chld, ...)\<close>.
\<close>

definition verify_multi_domain :: "('a node \<Rightarrow> bool) \<Rightarrow> 'a node \<Rightarrow> bool" where
  "verify_multi_domain vsd n =
     (if \<not> is_object n \<and> \<not> is_list n \<and> \<not> is_empty n then False
      else if is_empty n \<or> number_of_children n = 0 then True
      else fold (\<lambda>chld res. res \<and> vsd chld) (children n) True)"

text \<open>
  \<^verbatim>\<open>mesh::verify(mesh, info)\<close>: a node with a child "coordsets" is a single domain, any other
  node is checked as a multi-domain mesh.
\<close>

definition mesh_verify :: "('a node \<Rightarrow> bool) \<Rightarrow> 'a node \<Rightarrow> bool" where
  "mesh_verify vsd mesh =
     (if has_child mesh ''coordsets'' then vsd mesh else verify_multi_domain vsd mesh)"

text \<open>
  \<^verbatim>\<open>mesh::verify(protocol, n, info)\<close>: \<open>res\<close> starts as \<open>false\<close> and an if/else-if chain over
  the protocol name calls one verifier. The fifteen verifiers are the fields of a record.
\<close>

record 'n verifiers =
  coordset_verify :: "'n \<Rightarrow> bool"
  topology_verify :: "'n \<Rightarrow> bool"
  matset_verify :: "'n \<Rightarrow> bool"
  specset_verify :: "'n \<Rightarrow> bool"
  field_verify :: "'n \<Rightarrow> bool"
  adjset_verify :: "'n \<Rightarrow> bool"
  nestset_verify :: "'n \<Rightarrow> bool"
  index_verify :: "'n \<Rightarrow> bool"
  coordset_index_verify :: "'n \<Rightarrow> bool"
  topology_index_verify :: "'n \<Rightarrow> bool"
  matset_index_verify :: "'n \<Rightarrow> bool"
  specset_index_verify :: "'n \<Rightarrow> bool"
  field_index_verify :: "'n \<Rightarrow> bool"
  adjset_index_verify :: "'n \<Rightarrow> bool"
  nestset_index_verify :: "'n \<Rightarrow> bool"

definition mesh_verify_protocol :: "'n verifiers \<Rightarrow> string \<Rightarrow> 'n \<Rightarrow> bool" where
  "mesh_verify_protocol vs protocol n =
     (if protocol = ''coordset'' then coordset_verify vs n
      else if protocol = ''topology'' then topology_verify vs n
      else if protocol = ''matset'' then matset_verify vs n
      else if protocol = ''specset'' then specset_verify vs n
      else if protocol = ''field'' then field_verify vs n
      else if protocol = ''adjset'' then adjset_verify vs n
      else if protocol = ''nestset'' then nestset_verify vs n
      else if protocol = ''index'' then index_verify vs n
      else if protocol = ''coordset/index'' then coordset_index_verify vs n
      else if protocol = ''topology/index'' then topology_index_verify vs n
      else if protocol = ''matset/index'' then matset_index_verify vs n
      else if protocol = ''specset/index'' then specset_index_verify vs n
      else if protocol = ''field/index'' then field_index_verify vs n
      else if protocol = ''adjset/index'' then adjset_index_verify vs n
      else if protocol = ''nestset/index'' then nestset_index_verify vs n
      else False)"

text \<open>The protocol names of the specification, in the order it lists them.\<close>

definition blueprint_protocols :: "string list" where
  "blueprint_protocols =
     [''coordset'', ''topology'', ''matset'', ''specset'', ''field'', ''adjset'', ''nestset'',
      ''index'', ''coordset/index'', ''topology/index'', ''matset/index'', ''specset/index'',
      ''field/index'', ''adjset/index'', ''nestset/index'']"

text \<open>A record of verifiers that accept every node, to run the dispatch on.\<close>

definition accept_all :: "unit verifiers" where
  "accept_all =
     \<lparr>coordset_verify = (\<lambda>n. True), topology_verify = (\<lambda>n. True),
      matset_verify = (\<lambda>n. True), specset_verify = (\<lambda>n. True),
      field_verify = (\<lambda>n. True), adjset_verify = (\<lambda>n. True),
      nestset_verify = (\<lambda>n. True), index_verify = (\<lambda>n. True),
      coordset_index_verify = (\<lambda>n. True), topology_index_verify = (\<lambda>n. True),
      matset_index_verify = (\<lambda>n. True), specset_index_verify = (\<lambda>n. True),
      field_index_verify = (\<lambda>n. True), adjset_index_verify = (\<lambda>n. True),
      nestset_index_verify = (\<lambda>n. True)\<rparr>"

subsection \<open>conduit\_blueprint\_mpi\_mesh\_parmetis.cpp: the width checks\<close>

text \<open>
  \<^verbatim>\<open>static_assert(IDXTYPEWIDTH != 32 || IDXTYPEWIDTH != 64, "Metis idx_t is not 32 or 64 bits");\<close>
  \<^verbatim>\<open>static_assert(REALTYPEWIDTH != 32 || REALTYPEWIDTH != 64, "Metis real_t is not 32 or 64 bits");\<close>
  The condition of each assertion, as a function of the value of the macro.
\<close>

definition idx_width_assertion :: "int \<Rightarrow> bool" where
  "idx_width_assertion IDXTYPEWIDTH = (IDXTYPEWIDTH \<noteq> 32 \<or> IDXTYPEWIDTH \<noteq> 64)"

definition real_width_assertion :: "int \<Rightarrow> bool" where
  "real_width_assertion REALTYPEWIDTH = (REALTYPEWIDTH \<noteq> 32 \<or> REALTYPEWIDTH \<noteq> 64)"

subsection \<open>conduit\_blueprint\_mesh.cpp: coordsets\<close>

text \<open>
  Numbers. The coordinates are floating-point numbers in the source (\<^verbatim>\<open>float64\<close> in the
  computation, the widest float type of the coordset in the destination). They are kept
  abstract here: a type \<open>'f\<close> with the operations the source applies to them (\<open>0\<close>, \<open>1\<close>,
  \<open>+\<close>, \<open>*\<close>, taken from the syntactic classes, which assume no law of arithmetic), the
  conversion \<open>of_index\<close> of an index to a float and the conversion \<open>to_float_dtype\<close> to
  the element type of the destination. What is proved holds whatever rounding these do.

  A coordset is the record of the children the converters read, each absent (\<open>None\<close>) or
  the list of its own children by name:
  \<^verbatim>\<open>dims/{i,j,k}\<close>, \<^verbatim>\<open>origin/{x,y,z}\<close>, \<^verbatim>\<open>spacing/{dx,dy,dz}\<close> and \<^verbatim>\<open>values/{x,y,z}\<close>.
  A fetch of a child that does not exist, through a const Node, is a fatal error: \<open>None\<close>.
\<close>

text \<open>
  Modelled from the spec: the constant \<^verbatim>\<open>bputils::LOGICAL_AXES\<close> is declared in the mesh
  utilities, outside this file; the specification names the logical axes \<open>i\<close>, \<open>j\<close>, \<open>k\<close>.
\<close>

definition LOGICAL_AXES :: "string list" where
  "LOGICAL_AXES = [''i'', ''j'', ''k'']"

record 'f coordset =
  cs_dims :: "(string \<times> nat) list option"
  cs_origin :: "(string \<times> 'f) list option"
  cs_spacing :: "(string \<times> 'f) list option"
  cs_values :: "(string \<times> 'f list) list option"

record 'g explicit_coordset =
  ec_type :: string
  ec_values :: "(string \<times> 'g list) list"

definition fetch :: "(string \<times> 'a) list option \<Rightarrow> string \<Rightarrow> 'a option" where
  "fetch node name = (case node of None \<Rightarrow> None | Some cs \<Rightarrow> map_of cs name)"

text \<open>
  \<^verbatim>\<open>convert_coordset_to_explicit(base_type, coordset, dest)\<close>. The axes of the coordinate
  system, \<^verbatim>\<open>bputils::coordset::axes(coordset)\<close>, are the parameter \<open>csys_axes\<close>.
  \<^verbatim>\<open>
  dim_lens[i] = is_base_rectilinear ?
      coordset["values"][csys_axes[i]].dtype().number_of_elements() :
      coordset["dims"][logical_axes[i]].to_int64();
  \<close>
\<close>

definition dim_len :: "bool \<Rightarrow> string list \<Rightarrow> 'f coordset \<Rightarrow> nat \<Rightarrow> nat option" where
  "dim_len is_base_rectilinear csys_axes coordset i =
     (if is_base_rectilinear
      then map_option length (fetch (cs_values coordset) (csys_axes ! i))
      else fetch (cs_dims coordset) (LOGICAL_AXES ! i))"

text \<open>
  \<^verbatim>\<open>
  const Node &src_cvals_node = coordset.has_child("values") ?
      coordset["values"][csys_axis] : info;
  float64 dim_origin = coordset.has_child("origin") ?
      coordset["origin"][csys_axis].to_float64() : 0.0;
  float64 dim_spacing = coordset.has_child("spacing") ?
      coordset["spacing"]["d"+csys_axis].to_float64() : 1.0;
  \<close>
  The empty node \<open>info\<close> has no elements.
\<close>

definition src_cvals :: "'f coordset \<Rightarrow> string \<Rightarrow> 'f list option" where
  "src_cvals coordset csys_axis =
     (if cs_values coordset \<noteq> None then fetch (cs_values coordset) csys_axis else Some [])"

definition dim_origin :: "('f::zero) coordset \<Rightarrow> string \<Rightarrow> 'f option" where
  "dim_origin coordset csys_axis =
     (if cs_origin coordset \<noteq> None then fetch (cs_origin coordset) csys_axis else Some 0)"

definition dim_spacing :: "('f::one) coordset \<Rightarrow> string \<Rightarrow> 'f option" where
  "dim_spacing coordset csys_axis =
     (if cs_spacing coordset \<noteq> None then fetch (cs_spacing coordset) (''d'' @ csys_axis)
      else Some 1)"

text \<open>
  \<^verbatim>\<open>
  for(index_t j = 0; j < (index_t)csys_axes.size(); j++)
  {
      dim_block_size *= (j < i) ? dim_lens[j] : 1;
      dim_block_count *= (i < j) ? dim_lens[j] : 1;
  }
  \<close>
\<close>

definition dim_block_size :: "nat \<Rightarrow> nat list \<Rightarrow> nat \<Rightarrow> nat" where
  "dim_block_size n dim_lens i = fold (\<lambda>j s. s * (if j < i then dim_lens ! j else 1)) [0..<n] 1"

definition dim_block_count :: "nat \<Rightarrow> nat list \<Rightarrow> nat \<Rightarrow> nat" where
  "dim_block_count n dim_lens i = fold (\<lambda>j s. s * (if i < j then dim_lens ! j else 1)) [0..<n] 1"

text \<open>
  The three nested loops that fill the array of one axis; \<open>val d\<close> is the value written
  for the index \<open>d\<close> along the axis.
  \<^verbatim>\<open>
  for(index_t d = 0; d < dim_lens[i]; d++)
  {
      index_t doffset = d * dim_block_size;
      for(index_t b = 0; b < dim_block_count; b++)
      {
          index_t boffset = b * dim_block_size * dim_lens[i];
          for(index_t bi = 0; bi < dim_block_size; bi++)
          {
              index_t ioffset = doffset + boffset + bi;
              ... dst_cvals_node.element_ptr(ioffset) ...
  \<close>
\<close>

definition fill_axis :: "nat \<Rightarrow> nat \<Rightarrow> nat \<Rightarrow> (nat \<Rightarrow> 'g) \<Rightarrow> 'g list \<Rightarrow> 'g list" where
  "fill_axis dim_len_i block_size block_count val dst =
     fold (\<lambda>d dst.
       let doffset = d * block_size in
       fold (\<lambda>b dst.
         let boffset = b * block_size * dim_len_i in
         fold (\<lambda>bi dst.
           let ioffset = doffset + boffset + bi in dst[ioffset := val d])
           [0..<block_size] dst)
         [0..<block_count] dst)
       [0..<dim_len_i] dst"

text \<open>
  The body of the loop over the axes: the value written is the \<open>d\<close>-th source value
  (rectilinear) or \<^verbatim>\<open>dim_origin + d * dim_spacing\<close> (uniform), converted to the float type of
  the destination. The destination array has \<open>coords_len\<close> elements, zero before the loops.
\<close>

definition axis_values ::
  "(nat \<Rightarrow> 'f) \<Rightarrow> ('f \<Rightarrow> 'g) \<Rightarrow> bool \<Rightarrow> string list \<Rightarrow> ('f::{zero,one,plus,times}) coordset
     \<Rightarrow> nat list \<Rightarrow> nat \<Rightarrow> nat \<Rightarrow> (string \<times> ('g::zero) list) option" where
  "axis_values of_index to_float_dtype is_base_rectilinear csys_axes coordset
       dim_lens coords_len i =
     (let csys_axis = csys_axes ! i in
      case src_cvals coordset csys_axis of
        None \<Rightarrow> None
      | Some src_cvals_node \<Rightarrow>
         (case dim_origin coordset csys_axis of
            None \<Rightarrow> None
          | Some origin \<Rightarrow>
             (case dim_spacing coordset csys_axis of
                None \<Rightarrow> None
              | Some spacing \<Rightarrow>
                 Some (csys_axis,
                   fill_axis (dim_lens ! i)
                     (dim_block_size (length csys_axes) dim_lens i)
                     (dim_block_count (length csys_axes) dim_lens i)
                     (\<lambda>d. to_float_dtype
                        (if is_base_rectilinear then src_cvals_node ! d
                         else origin + of_index d * spacing))
                     (replicate coords_len 0)))))"

text \<open>
  The converter. \<^verbatim>\<open>index_t dim_lens[3]\<close> holds at most three axes; the base type is
  "rectilinear" or "uniform" at both calls of the file, and the result is \<open>None\<close> for
  any other.
\<close>

definition convert_coordset_to_explicit ::
  "(nat \<Rightarrow> 'f) \<Rightarrow> ('f \<Rightarrow> 'g) \<Rightarrow> string \<Rightarrow> string list \<Rightarrow> ('f::{zero,one,plus,times}) coordset
     \<Rightarrow> ('g::zero) explicit_coordset option" where
  "convert_coordset_to_explicit of_index to_float_dtype base_type csys_axes coordset =
     (let is_base_rectilinear = (base_type = ''rectilinear'');
          is_base_uniform = (base_type = ''uniform'') in
      if (\<not> is_base_rectilinear \<and> \<not> is_base_uniform) \<or> length csys_axes > 3 then None
      else
       (case those (map (dim_len is_base_rectilinear csys_axes coordset)
                      [0..<length csys_axes]) of
          None \<Rightarrow> None
        | Some dim_lens \<Rightarrow>
           (let coords_len = fold (\<lambda>i c. c * dim_lens ! i) [0..<length csys_axes] 1 in
            case those (map (axis_values of_index to_float_dtype is_base_rectilinear
                               csys_axes coordset dim_lens coords_len)
                          [0..<length csys_axes]) of
              None \<Rightarrow> None
            | Some vals \<Rightarrow> Some \<lparr>ec_type = ''explicit'', ec_values = vals\<rparr>)))"

text \<open>\<^verbatim>\<open>mesh::coordset::uniform::to_explicit\<close> and \<^verbatim>\<open>mesh::coordset::rectilinear::to_explicit\<close>.\<close>

definition uniform_to_explicit ::
  "(nat \<Rightarrow> 'f) \<Rightarrow> ('f \<Rightarrow> 'g) \<Rightarrow> string list \<Rightarrow> ('f::{zero,one,plus,times}) coordset
     \<Rightarrow> ('g::zero) explicit_coordset option" where
  "uniform_to_explicit of_index to_float_dtype =
     convert_coordset_to_explicit of_index to_float_dtype ''uniform''"

definition rectilinear_to_explicit ::
  "(nat \<Rightarrow> 'f) \<Rightarrow> ('f \<Rightarrow> 'g) \<Rightarrow> string list \<Rightarrow> ('f::{zero,one,plus,times}) coordset
     \<Rightarrow> ('g::zero) explicit_coordset option" where
  "rectilinear_to_explicit of_index to_float_dtype =
     convert_coordset_to_explicit of_index to_float_dtype ''rectilinear''"

subsubsection \<open>What the specification says of the explicit coordset\<close>

text \<open>
  A node has a child of a given name; the children of the coordset that belong to an axis
  are there: the vertex count (the entry of the logical axis in \<open>dims\<close> for a uniform
  coordset, the array of the axis in \<open>values\<close> for a rectilinear one), and the entry of
  the axis in each of \<open>values\<close>, \<open>origin\<close> and \<open>spacing\<close> that the coordset has.
\<close>

definition child_present :: "(string \<times> 'a) list option \<Rightarrow> string \<Rightarrow> bool" where
  "child_present node name =
     (case node of None \<Rightarrow> False | Some cs \<Rightarrow> list_ex (\<lambda>c. fst c = name) cs)"

definition axes_present :: "bool \<Rightarrow> string list \<Rightarrow> 'f coordset \<Rightarrow> bool" where
  "axes_present rectilinear csys_axes coordset =
     list_all (\<lambda>a.
         (if rectilinear then child_present (cs_values coordset) (csys_axes ! a)
          else child_present (cs_dims coordset) ([''i'', ''j'', ''k''] ! a) \<and>
               (cs_values coordset = None \<or>
                child_present (cs_values coordset) (csys_axes ! a))) \<and>
         (cs_origin coordset = None \<or> child_present (cs_origin coordset) (csys_axes ! a)) \<and>
         (cs_spacing coordset = None \<or>
          child_present (cs_spacing coordset) (''d'' @ csys_axes ! a)))
       [0..<length csys_axes]"

text \<open>
  The vertex counts per axis: the number of values of the axis for a rectilinear coordset,
  and the entry of \<open>dims\<close> under \<open>i\<close>, \<open>j\<close> or \<open>k\<close> for a uniform one.
\<close>

definition rectilinear_count :: "'f coordset \<Rightarrow> string \<Rightarrow> nat" where
  "rectilinear_count coordset axis =
     (case cs_values coordset of
        None \<Rightarrow> 0
      | Some vs \<Rightarrow> (case map_of vs axis of None \<Rightarrow> 0 | Some xs \<Rightarrow> length xs))"

definition uniform_count :: "'f coordset \<Rightarrow> string \<Rightarrow> nat" where
  "uniform_count coordset logical_axis =
     (case cs_dims coordset of
        None \<Rightarrow> 0
      | Some ds \<Rightarrow> (case map_of ds logical_axis of None \<Rightarrow> 0 | Some n \<Rightarrow> n))"

definition axis_lens :: "bool \<Rightarrow> string list \<Rightarrow> 'f coordset \<Rightarrow> nat list" where
  "axis_lens rectilinear csys_axes coordset =
     map (\<lambda>a. if rectilinear then rectilinear_count coordset (csys_axes ! a)
               else uniform_count coordset ([''i'', ''j'', ''k''] ! a))
       [0..<length csys_axes]"

text \<open>
  Column-major order, the first axis fastest: the index along axis \<open>a\<close> of the \<open>k\<close>-th
  point of a grid with \<open>lens\<close> points per axis.
\<close>

definition grid_coord :: "nat list \<Rightarrow> nat \<Rightarrow> nat \<Rightarrow> nat" where
  "grid_coord lens a k = (k div prod_list (take a lens)) mod (lens ! a)"

text \<open>
  The coordinate at index \<open>d\<close> of an axis: the \<open>d\<close>-th value of the axis (rectilinear), or
  \<open>origin + d * spacing\<close> with the origin 0 and the spacing 1 when absent (uniform).
\<close>

definition axis_coordinate ::
  "(nat \<Rightarrow> 'f) \<Rightarrow> bool \<Rightarrow> ('f::{zero,one,plus,times}) coordset \<Rightarrow> string \<Rightarrow> nat \<Rightarrow> 'f" where
  "axis_coordinate of_index is_base_rectilinear coordset axis d =
     (if is_base_rectilinear
      then (case cs_values coordset of
              None \<Rightarrow> 0
            | Some vs \<Rightarrow> (case map_of vs axis of None \<Rightarrow> 0 | Some xs \<Rightarrow> xs ! d))
      else (case cs_origin coordset of
              None \<Rightarrow> 0
            | Some os \<Rightarrow> (case map_of os axis of None \<Rightarrow> 0 | Some x \<Rightarrow> x))
           + of_index d *
             (case cs_spacing coordset of
                None \<Rightarrow> 1
              | Some ss \<Rightarrow> (case map_of ss (''d'' @ axis) of None \<Rightarrow> 1 | Some dx \<Rightarrow> dx)))"

text \<open>
  The uniform coordset of the specification's scenario: dims \<open>{i: 3, j: 2}\<close>, origin
  \<open>{x: 0, y: 0}\<close>, spacing \<open>{dx: 1, dy: 2}\<close>, over the rationals.
\<close>

definition ex_uniform :: "rat coordset" where
  "ex_uniform = \<lparr>cs_dims = Some [(''i'', 3), (''j'', 2)],
                 cs_origin = Some [(''x'', 0), (''y'', 0)],
                 cs_spacing = Some [(''dx'', 1), (''dy'', 2)],
                 cs_values = None\<rparr>"

text \<open>
  A rectilinear coordset with the values 0, 1, 3 along \<open>x\<close> and 0, 5 along \<open>y\<close>.
\<close>

definition ex_rectilinear :: "rat coordset" where
  "ex_rectilinear = \<lparr>cs_dims = None, cs_origin = None, cs_spacing = None,
                     cs_values = Some [(''x'', [0, 1, 3]), (''y'', [0, 5])]\<rparr>"

subsection \<open>conduit\_blueprint\_mesh.cpp: structured grids to unstructured topologies\<close>

text \<open>
  \<^verbatim>\<open>
  grid_id = 0;
  for(index_t d = 0; d < 3; d++)
  {
      index_t doffset = ijk[d];
      for(index_t dd = 0; dd < d; dd++) { doffset *= dims[dd]; }
      grid_id += doffset;
  }
  \<close>
\<close>

definition grid_ijk_to_id :: "nat list \<Rightarrow> nat list \<Rightarrow> nat" where
  "grid_ijk_to_id ijk dims =
     fold (\<lambda>d grid_id.
             let doffset = fold (\<lambda>dd doffset. doffset * dims ! dd) [0..<d] (ijk ! d)
             in grid_id + doffset)
       [0..<3] 0"

text \<open>
  \<^verbatim>\<open>
  index_t dremain = id;
  for(index_t d = 3; d-- > 0;)
  {
      index_t dstride = 1;
      for(index_t dd = 0; dd < d; dd++) { dstride *= dims[dd]; }
      grid_ijk[d] = dremain / dstride;
      dremain = dremain % dstride;
  }
  \<close>
  The loop runs for \<open>d = 2, 1, 0\<close>. A division by zero is undefined behaviour: \<open>None\<close>.
\<close>

definition grid_id_to_ijk :: "nat \<Rightarrow> nat list \<Rightarrow> nat list \<Rightarrow> nat list option" where
  "grid_id_to_ijk gid dims grid_ijk =
     map_option snd
       (fold (\<lambda>d st.
                case st of
                  None \<Rightarrow> None
                | Some (dremain, grid_ijk) \<Rightarrow>
                    let dstride = fold (\<lambda>dd dstride. dstride * dims ! dd) [0..<d] 1
                    in if dstride = 0 then None
                       else Some (dremain mod dstride, grid_ijk[d := dremain div dstride]))
          [2, 1, 0] (Some (gid, grid_ijk)))"

text \<open>
  The vertices of element \<open>e\<close>, in the order of the bit patterns of \<open>i\<close>:
  \<^verbatim>\<open>
  for(index_t i = 0, v = 0; i < indices_per_elem; i++)
  {
      memcpy(&curr_vert[0], &curr_elem[0], 3 * sizeof(index_t));
      for(index_t d = 0; d < (index_t)csys_axes.size(); d++)
      {   curr_vert[d] += (i & (index_t)pow(2, d)) >> d;   }
      grid_ijk_to_id(&curr_vert[0], &vdims_axes[0], v);
      ... conn_node.element_ptr(e * indices_per_elem + i) ...
  }
  \<close>
\<close>

definition elem_vertices :: "nat \<Rightarrow> nat \<Rightarrow> nat list \<Rightarrow> nat list \<Rightarrow> nat \<Rightarrow> nat list \<Rightarrow> nat list" where
  "elem_vertices n_axes indices_per_elem vdims_axes curr_elem e conn =
     fold (\<lambda>i conn.
             let curr_vert = fold (\<lambda>d curr_vert.
                                     curr_vert[d := curr_vert ! d + drop_bit d (i AND 2 ^ d)])
                               [0..<n_axes] curr_elem;
                 v = grid_ijk_to_id curr_vert vdims_axes
             in conn[e * indices_per_elem + i := v])
       [0..<indices_per_elem] conn"

text \<open>
  The loop that inverts quads and hexes; \<open>t1\<close> and \<open>t2\<close> are copies of the two entries.
  \<^verbatim>\<open>
  for(index_t p = 2; p < indices_per_elem; p += 4)
  {
      index_t p1 = e * indices_per_elem + p;
      index_t p2 = e * indices_per_elem + p + 1;
      ... t1 = conn[p1]; t2 = conn[p2]; conn[p1] = t2; conn[p2] = t1;
  }
  \<close>
\<close>

function swap_pairs :: "nat \<Rightarrow> nat \<Rightarrow> nat \<Rightarrow> nat list \<Rightarrow> nat list" where
  "swap_pairs indices_per_elem e p conn =
     (if p < indices_per_elem then
        (let p1 = e * indices_per_elem + p;
             p2 = e * indices_per_elem + p + 1;
             t1 = conn ! p1;
             t2 = conn ! p2
         in swap_pairs indices_per_elem e (p + 4) (conn[p1 := t2, p2 := t1]))
      else conn)"
  by pat_completeness auto
termination
  by (relation "measure (\<lambda>(indices_per_elem, e, p, conn). indices_per_elem - p)") auto

declare swap_pairs.simps [simp del]

text \<open>
  The body of the loop over the elements, and the loop. The array \<open>curr_elem\<close> is not
  initialised in the source; \<^verbatim>\<open>grid_id_to_ijk\<close> writes its three entries.
\<close>

definition elem_step :: "nat \<Rightarrow> nat list \<Rightarrow> nat list \<Rightarrow> nat \<Rightarrow> nat list option \<Rightarrow> nat list option" where
  "elem_step n_axes edims_axes vdims_axes e st =
     (case st of
        None \<Rightarrow> None
      | Some conn \<Rightarrow>
         (case grid_id_to_ijk e edims_axes [0, 0, 0] of
            None \<Rightarrow> None
          | Some curr_elem \<Rightarrow>
              Some (swap_pairs (2 ^ n_axes) e 2
                      (elem_vertices n_axes (2 ^ n_axes) vdims_axes curr_elem e conn))))"

text \<open>
  \<^verbatim>\<open>
  index_t vdims_axes[3] = {1, 1, 1}, num_elems = 1;
  for(index_t d = 0; d < 3; d++)
  {
      num_elems *= edims_axes[d];
      vdims_axes[d] = edims_axes[d] + 1;
  }
  index_t indices_per_elem = (index_t) pow(2, csys_axes.size());
  conn_node.set(DataType(int_dtype.id(), num_elems * indices_per_elem));
  for(index_t e = 0; e < num_elems; e++) ...
  \<close>
\<close>

definition connectivity :: "nat \<Rightarrow> nat list \<Rightarrow> nat list option" where
  "connectivity n_axes edims_axes =
     (let num_elems = fold (\<lambda>d num_elems. num_elems * edims_axes ! d) [0..<3] 1;
          vdims_axes = fold (\<lambda>d vdims_axes. vdims_axes[d := edims_axes ! d + 1]) [0..<3] [1, 1, 1];
          indices_per_elem = 2 ^ n_axes
      in fold (elem_step n_axes edims_axes vdims_axes) [0..<num_elems]
           (Some (replicate (num_elems * indices_per_elem) 0)))"

text \<open>
  The topology read (\<^verbatim>\<open>origin\<close> and \<^verbatim>\<open>elements/dims/{i,j,k}\<close>) and the topology written.
\<close>

record 'o topology =
  topo_origin :: "'o option"
  topo_dims :: "(string \<times> nat) list option"

record 'o unstructured_topology =
  ut_type :: string
  ut_coordset :: string
  ut_origin :: "'o option"
  ut_shape :: string
  ut_connectivity :: "nat list"

text \<open>
  The number of elements along an axis, by base type: the dimension of the topology
  (structured), the number of values of the axis less one (rectilinear), the dimension of
  the coordset less one (uniform). The array \<open>edims_axes\<close> is \<open>{1, 1, 1}\<close> before.
  The source computes \<open>n - 1\<close> on signed integers; a count \<open>n = 0\<close> gives a negative
  number of elements, which is outside this model: \<open>None\<close>.
\<close>

definition pred_count :: "nat \<Rightarrow> nat option" where
  "pred_count n = (if n = 0 then None else Some (n - 1))"

definition edims_axis ::
  "string \<Rightarrow> string list \<Rightarrow> 'o topology \<Rightarrow> 'f coordset \<Rightarrow> nat \<Rightarrow> nat option" where
  "edims_axis base_type csys_axes topo coordset i =
     (if base_type = ''structured'' then fetch (topo_dims topo) (LOGICAL_AXES ! i)
      else if base_type = ''rectilinear'' then
        (case fetch (cs_values coordset) (csys_axes ! i) of
           None \<Rightarrow> None | Some vs \<Rightarrow> pred_count (length vs))
      else if base_type = ''uniform'' then
        (case fetch (cs_dims coordset) (LOGICAL_AXES ! i) of
           None \<Rightarrow> None | Some v \<Rightarrow> pred_count v)
      else Some 1)"

text \<open>
  \<^verbatim>\<open>convert_topology_to_unstructured(base_type, topo, dest, cdest)\<close>: the topology written to
  \<open>dest\<close>. The coordset written to \<open>cdest\<close> (a copy, or the explicit coordset of the
  section above) is not part of this function's model; its name is the parameter
  \<open>cdest_name\<close>. The arrays of three entries hold at most three axes.
\<close>

definition convert_topology_to_unstructured ::
  "string \<Rightarrow> string list \<Rightarrow> string \<Rightarrow> 'o topology \<Rightarrow> 'f coordset
     \<Rightarrow> 'o unstructured_topology option" where
  "convert_topology_to_unstructured base_type csys_axes cdest_name topo coordset =
     (if length csys_axes > 3 then None
      else
       (case those (map (edims_axis base_type csys_axes topo coordset) [0..<length csys_axes]) of
          None \<Rightarrow> None
        | Some ds \<Rightarrow>
           (let edims_axes = ds @ replicate (3 - length csys_axes) 1 in
            case connectivity (length csys_axes) edims_axes of
              None \<Rightarrow> None
            | Some conn \<Rightarrow>
                Some \<lparr>ut_type = ''unstructured'', ut_coordset = cdest_name,
                      ut_origin = topo_origin topo,
                      ut_shape = (if length csys_axes = 1 then ''line''
                                  else if length csys_axes = 2 then ''quad''
                                  else if length csys_axes = 3 then ''hex'' else []),
                      ut_connectivity = conn\<rparr>)))"

text \<open>\<^verbatim>\<open>mesh::topology::structured::to_unstructured\<close>.\<close>

definition structured_to_unstructured ::
  "string list \<Rightarrow> string \<Rightarrow> 'o topology \<Rightarrow> 'f coordset \<Rightarrow> 'o unstructured_topology option" where
  "structured_to_unstructured = convert_topology_to_unstructured ''structured''"

subsubsection \<open>What the specification says of the connectivity\<close>

text \<open>
  The element counts of a structured topology along the three axes (1 beyond the axes of
  the coordinate system).
\<close>

definition structured_edims :: "string list \<Rightarrow> 'o topology \<Rightarrow> nat list" where
  "structured_edims csys_axes topo =
     map (\<lambda>a. if a < length csys_axes
               then (case fetch (topo_dims topo) (LOGICAL_AXES ! a) of None \<Rightarrow> 0 | Some v \<Rightarrow> v)
               else 1) [0..<3]"

text \<open>
  Bit \<open>a\<close> of the local vertex index \<open>b\<close> as a step along axis \<open>a\<close>; the exchange of the
  last two of each group of four local indices; the id of the grid point \<open>ijk\<close> of a grid
  with \<open>vdims\<close> points per axis; the id of the local vertex \<open>b\<close> of cell \<open>e\<close>.
\<close>

definition bit_dir :: "nat \<Rightarrow> nat \<Rightarrow> nat" where
  "bit_dir b a = (if bit b a then 1 else 0)"

definition swap_last_two :: "nat \<Rightarrow> nat" where
  "swap_last_two i = (if i mod 4 = 2 then i + 1 else if i mod 4 = 3 then i - 1 else i)"

definition grid_point_id :: "nat list \<Rightarrow> nat list \<Rightarrow> nat" where
  "grid_point_id vdims ijk =
     sum_list (map (\<lambda>a. ijk ! a * prod_list (take a vdims)) [0..<length ijk])"

definition cell_vertex :: "nat list \<Rightarrow> nat \<Rightarrow> nat \<Rightarrow> nat" where
  "cell_vertex edims e b =
     grid_point_id (map Suc edims)
       (map (\<lambda>a. grid_coord edims a e + bit_dir b a) [0..<length edims])"

text \<open>
  The scenario of the specification: a grid of 2 by 2 elements over a rectilinear
  coordset of 3 by 3 vertices.
\<close>

definition ex_grid :: "unit topology" where
  "ex_grid = \<lparr>topo_origin = None, topo_dims = Some [(''i'', 2), (''j'', 2)]\<rparr>"

definition ex_coords :: "rat coordset" where
  "ex_coords = \<lparr>cs_dims = None, cs_origin = None, cs_spacing = None,
                cs_values = Some [(''x'', [0, 1, 2]), (''y'', [0, 1, 2])]\<rparr>"

subsection \<open>conduit\_blueprint\_mesh.cpp: unstructured topologies to polygonal or polyhedral\<close>

text \<open>
  The shape of the elements of a topology, \<^verbatim>\<open>bputils::ShapeType\<close>: its name, its dimension,
  the number of vertex indices of an element, the number of faces (or edges) embedded in
  an element and, for each of them in turn, the positions of its vertices in the element.
  The constructor \<^verbatim>\<open>ShapeType(topo)\<close> looks the record up by the name in
  \<^verbatim>\<open>elements/shape\<close>, and \<^verbatim>\<open>ShapeCascade::get_shape(dim - 1)\<close> gives the shape of the faces;
  the tables they read are declared in the mesh utilities, so both lookups are parameters
  of the conversion (\<open>shape_of\<close> and \<open>embed_shape_of\<close>).
\<close>

record shape_type =
  sh_type :: string
  sh_dim :: nat
  sh_indices :: nat
  sh_embed_count :: nat
  sh_embedding :: "nat list"

text \<open>
  Modelled from the spec: \<^verbatim>\<open>ShapeType::is_poly\<close> is declared in the mesh utilities; the
  specification has the polygonal and polyhedral forms as the shapes \<open>polygonal\<close> and
  \<open>polyhedral\<close>.
\<close>

definition is_poly :: "shape_type \<Rightarrow> bool" where
  "is_poly shape = (sh_type shape = ''polygonal'' \<or> sh_type shape = ''polyhedral'')"

text \<open>
  An unstructured topology: its children \<open>elements\<close> and \<open>subelements\<close> (each with shape,
  connectivity, sizes and offsets), and all its other children (\<open>type\<close>, \<open>coordset\<close>, ...)
  as one value.
\<close>

record elements =
  el_shape :: string
  el_connectivity :: "int list"
  el_sizes :: "int list option"
  el_offsets :: "int list option"

record 'x poly_topology =
  pt_other :: 'x
  pt_elements :: elements
  pt_subelements :: "elements option"

text \<open>
  The search for a face with the same vertices among the faces made so far:
  \<^verbatim>\<open>
  bool face_exists = false;
  index_t face_index = polygonal_conn_data.size() / embed_shape.indices;
  for (index_t poly_i = 0; poly_i < face_index; poly_i++)
  {
      index_t face_off = poly_i * embed_shape.indices;
      face_exists |= std::is_permutation(polygonal_conn_data.begin() + face_off,
                                         polygonal_conn_data.begin() + face_off + embed_shape.indices,
                                         face_indices.begin());
      face_index = face_exists ? poly_i : face_index;
  }
  \<close>
  Once a face is found, \<open>face_index\<close> is \<open>poly_i\<close> and the loop condition fails.
\<close>

function find_face :: "nat \<Rightarrow> int list \<Rightarrow> int list \<Rightarrow> nat \<Rightarrow> nat \<Rightarrow> bool \<Rightarrow> bool \<times> nat" where
  "find_face n polygonal_conn_data face_indices poly_i face_index face_exists =
     (if poly_i < face_index then
        (let face_off = poly_i * n;
             face_exists = (face_exists \<or>
                mset (take n (drop face_off polygonal_conn_data)) = mset face_indices);
             face_index = (if face_exists then poly_i else face_index)
         in find_face n polygonal_conn_data face_indices (poly_i + 1) face_index face_exists)
      else (face_exists, face_index))"
  by pat_completeness auto
termination
  by (relation "measure (\<lambda>(n, pc, fi, poly_i, face_index, fe). face_index - poly_i)") auto

declare find_face.simps [simp del]

text \<open>
  One face \<open>fi\<close> of one element \<open>ei\<close>: its vertices are read from the connectivity
  through the embedding, the face is looked up, its index is written to the polyhedral
  connectivity, and a new face is appended to the polygonal connectivity.
\<close>

definition face_step ::
  "shape_type \<Rightarrow> shape_type \<Rightarrow> int list \<Rightarrow> nat \<Rightarrow> nat \<Rightarrow> int list \<times> int list \<Rightarrow> int list \<times> int list" where
  "face_step topo_shape embed_shape topo_conn ei fi st =
     (case st of (polyhedral_conn_data, polygonal_conn_data) \<Rightarrow>
        let data_off = sh_indices topo_shape * ei;
            polyhedral_off = sh_embed_count topo_shape * ei;
            face_indices = map (\<lambda>ii. topo_conn !
                                 (data_off + sh_embedding topo_shape ! (fi * sh_indices embed_shape + ii)))
                             [0..<sh_indices embed_shape];
            found = find_face (sh_indices embed_shape) polygonal_conn_data face_indices 0
                      (length polygonal_conn_data div sh_indices embed_shape) False
        in (polyhedral_conn_data[polyhedral_off + fi := int (snd found)],
            if \<not> fst found then polygonal_conn_data @ face_indices else polygonal_conn_data))"

text \<open>
  The embedding of a shape is consistent when it lists, for each embedded face, positions
  inside the element. The tables of the source are; for an inconsistent table a read of
  the conversion would leave the connectivity, and the model returns \<open>None\<close>.
\<close>

definition embedding_consistent :: "shape_type \<Rightarrow> shape_type \<Rightarrow> bool" where
  "embedding_consistent topo_shape embed_shape =
     (sh_embed_count topo_shape * sh_indices embed_shape \<le> length (sh_embedding topo_shape) \<and>
      list_all (\<lambda>p. p < sh_indices topo_shape) (sh_embedding topo_shape) \<and>
      0 < sh_indices embed_shape)"

text \<open>
  \<^verbatim>\<open>mesh::topology::unstructured::to_polygonal(topo, dest)\<close>. The helper
  \<^verbatim>\<open>generate_offsets(dest, dest["elements/offsets"])\<close> of the mesh utilities, which writes
  the offsets into \<open>dest\<close>, is the parameter \<open>generate_offsets\<close>. The division
  \<^verbatim>\<open>topo_indices / topo_shape.indices\<close> by zero is undefined behaviour: \<open>None\<close>.
  The integer type of the destination arrays is not modelled.
\<close>

definition to_polygonal ::
  "(string \<Rightarrow> shape_type) \<Rightarrow> (shape_type \<Rightarrow> shape_type) \<Rightarrow> ('x poly_topology \<Rightarrow> 'x poly_topology)
     \<Rightarrow> 'x poly_topology \<Rightarrow> 'x poly_topology option" where
  "to_polygonal shape_of embed_shape_of generate_offsets topo =
     (let topo_shape = shape_of (el_shape (pt_elements topo)) in
      if is_poly topo_shape then Some topo
      else if sh_indices topo_shape = 0 then None
      else
        let topo_conn = el_connectivity (pt_elements topo);
            topo_indices = length topo_conn;
            topo_elems = topo_indices div sh_indices topo_shape;
            is_topo_3d = (sh_dim topo_shape = 3)
        in
        if \<not> is_topo_3d then
          Some (generate_offsets
            \<lparr>pt_other = pt_other topo,
             pt_elements = \<lparr>el_shape = ''polygonal'', el_connectivity = topo_conn,
                            el_sizes = Some (replicate topo_elems (int (sh_indices topo_shape))),
                            el_offsets = None\<rparr>,
             pt_subelements = pt_subelements topo\<rparr>)
        else
          (let embed_shape = embed_shape_of topo_shape in
           if \<not> embedding_consistent topo_shape embed_shape then None
           else
            (case fold (\<lambda>ei. fold (face_step topo_shape embed_shape topo_conn ei)
                                [0..<sh_embed_count topo_shape])
                    [0..<topo_elems]
                    (replicate (topo_elems * sh_embed_count topo_shape) 0, []) of
               (polyhedral_conn_data, polygonal_conn_data) \<Rightarrow>
                 Some (generate_offsets
                   \<lparr>pt_other = pt_other topo,
                    pt_elements =
                      \<lparr>el_shape = ''polyhedral'', el_connectivity = polyhedral_conn_data,
                       el_sizes = Some (replicate topo_elems (int (sh_embed_count topo_shape))),
                       el_offsets = None\<rparr>,
                    pt_subelements = Some
                      \<lparr>el_shape = ''polygonal'', el_connectivity = polygonal_conn_data,
                       el_sizes = Some (replicate
                                    (length polygonal_conn_data div sh_indices embed_shape)
                                    (int (sh_indices embed_shape))),
                       el_offsets = None\<rparr>\<rparr>))))"

text \<open>\<^verbatim>\<open>mesh::topology::unstructured::to_polytopal\<close> calls \<^verbatim>\<open>to_polygonal\<close>.\<close>

definition to_polytopal ::
  "(string \<Rightarrow> shape_type) \<Rightarrow> (shape_type \<Rightarrow> shape_type) \<Rightarrow> ('x poly_topology \<Rightarrow> 'x poly_topology)
     \<Rightarrow> 'x poly_topology \<Rightarrow> 'x poly_topology option" where
  "to_polytopal = to_polygonal"

text \<open>
  The lookup of a shape gives a record of that name (as the constructor of the source
  does for the names it knows), and the helper writes offsets only.
\<close>

definition names_shapes :: "(string \<Rightarrow> shape_type) \<Rightarrow> bool" where
  "names_shapes shape_of =
     (sh_type (shape_of ''polygonal'') = ''polygonal'' \<and>
      sh_type (shape_of ''polyhedral'') = ''polyhedral'')"

definition keeps_shape :: "('x poly_topology \<Rightarrow> 'x poly_topology) \<Rightarrow> bool" where
  "keeps_shape generate_offsets =
     (\<forall>t. el_shape (pt_elements (generate_offsets t)) = el_shape (pt_elements t))"

text \<open>
  Tables and a helper to run the conversion on: triangles, quadrilaterals, tetrahedra and
  hexahedra with their edges or faces, and the offsets as the running sums of the sizes.
\<close>

definition ex_shape_of :: "string \<Rightarrow> shape_type" where
  "ex_shape_of name =
     (if name = ''tri'' then
        \<lparr>sh_type = name, sh_dim = 2, sh_indices = 3, sh_embed_count = 3,
         sh_embedding = [0, 1, 1, 2, 2, 0]\<rparr>
      else if name = ''quad'' then
        \<lparr>sh_type = name, sh_dim = 2, sh_indices = 4, sh_embed_count = 4,
         sh_embedding = [0, 1, 1, 2, 2, 3, 3, 0]\<rparr>
      else if name = ''tet'' then
        \<lparr>sh_type = name, sh_dim = 3, sh_indices = 4, sh_embed_count = 4,
         sh_embedding = [0, 2, 1, 0, 1, 3, 0, 3, 2, 1, 2, 3]\<rparr>
      else if name = ''hex'' then
        \<lparr>sh_type = name, sh_dim = 3, sh_indices = 8, sh_embed_count = 6,
         sh_embedding = [0, 3, 2, 1, 0, 1, 5, 4, 1, 2, 6, 5, 2, 3, 7, 6, 3, 0, 4, 7, 4, 5, 6, 7]\<rparr>
      else if name = ''polygonal'' then
        \<lparr>sh_type = name, sh_dim = 2, sh_indices = 0, sh_embed_count = 0, sh_embedding = []\<rparr>
      else if name = ''polyhedral'' then
        \<lparr>sh_type = name, sh_dim = 3, sh_indices = 0, sh_embed_count = 0, sh_embedding = []\<rparr>
      else \<lparr>sh_type = [], sh_dim = 0, sh_indices = 0, sh_embed_count = 0, sh_embedding = []\<rparr>)"

definition ex_embed_shape_of :: "shape_type \<Rightarrow> shape_type" where
  "ex_embed_shape_of shape =
     (if sh_type shape = ''tet'' then ex_shape_of ''tri''
      else if sh_type shape = ''hex'' then ex_shape_of ''quad''
      else \<lparr>sh_type = ''line'', sh_dim = 1, sh_indices = 2, sh_embed_count = 2,
            sh_embedding = [0, 1]\<rparr>)"

fun running_sums :: "int \<Rightarrow> int list \<Rightarrow> int list" where
  "running_sums acc [] = []"
| "running_sums acc (x # xs) = acc # running_sums (acc + x) xs"

definition ex_offsets :: "elements \<Rightarrow> elements" where
  "ex_offsets el =
     el\<lparr>el_offsets := (case el_sizes el of None \<Rightarrow> None | Some ss \<Rightarrow> Some (running_sums 0 ss))\<rparr>"

definition ex_generate_offsets :: "unit poly_topology \<Rightarrow> unit poly_topology" where
  "ex_generate_offsets t =
     t\<lparr>pt_elements := ex_offsets (pt_elements t),
       pt_subelements := map_option ex_offsets (pt_subelements t)\<rparr>"

definition ex_quads :: "unit poly_topology" where
  "ex_quads = \<lparr>pt_other = (),
               pt_elements = \<lparr>el_shape = ''quad'', el_connectivity = [0, 1, 4, 3, 1, 2, 5, 4],
                              el_sizes = None, el_offsets = None\<rparr>,
               pt_subelements = None\<rparr>"

definition ex_tets :: "unit poly_topology" where
  "ex_tets = \<lparr>pt_other = (),
              pt_elements = \<lparr>el_shape = ''tet'', el_connectivity = [0, 1, 2, 3, 1, 2, 3, 4],
                             el_sizes = None, el_offsets = None\<rparr>,
              pt_subelements = None\<rparr>"

definition ex_polygons :: "unit poly_topology" where
  "ex_polygons = \<lparr>pt_other = (),
                  pt_elements = \<lparr>el_shape = ''polygonal'',
                                 el_connectivity = [0, 1, 4, 3, 1, 2, 5, 4],
                                 el_sizes = Some [4, 4], el_offsets = Some [0, 4]\<rparr>,
                  pt_subelements = None\<rparr>"

subsection \<open>conduit\_blueprint\_mpi\_mesh\_parmetis.cpp: global element and vertex ids\<close>

text \<open>
  A domain, as far as the partition driver reads and writes it: its topologies by name
  (for each, the number of its elements, which the source gets from
  \<^verbatim>\<open>blueprint::mesh::utils::topology::length\<close>, and the name of its coordset), its
  coordsets by name (for each, the number of elements of \<^verbatim>\<open>values/x\<close>), and its fields by
  name. A mesh is the list of its domains, which is what \<^verbatim>\<open>mesh::domains(mesh, domains)\<close>
  returns; \<^verbatim>\<open>mesh::number_of_domains(mesh)\<close> is the length of that list.
\<close>

record field =
  fl_association :: string
  fl_topology :: string
  fl_values :: "int list"

record topology_info =
  tp_length :: nat
  tp_coordset :: string

record domain =
  dm_topologies :: "(string \<times> topology_info) list"
  dm_coordsets :: "(string \<times> nat) list"
  dm_fields :: "(string \<times> field) list"

type_synonym mesh = "domain list"

record options =
  op_topology :: "string option"
  op_field_prefix :: "string option"

text \<open>
  \<open>node[name] = value\<close> on an object: the child of that name is replaced where it
  stands, or a new child is added at the end.
\<close>

fun set_child :: "(string \<times> 'a) list \<Rightarrow> string \<Rightarrow> 'a \<Rightarrow> (string \<times> 'a) list" where
  "set_child [] name v = [(name, v)]"
| "set_child ((k, w) # cs) name v =
     (if k = name then (k, v) # cs else (k, w) # set_child cs name v)"

text \<open>
  Modelled from the spec: \<^verbatim>\<open>number_of_domains(mesh, comm)\<close> of the MPI mesh library and
  \<^verbatim>\<open>relay::mpi::max_all_reduce\<close> are declared outside this file. The first is the number of
  domains across all workers; the second is the element-wise max reduction over an
  integer vector, every worker receiving the result. The list \<open>meshes\<close> holds the mesh of
  each worker, by rank.
\<close>

definition global_number_of_domains :: "mesh list \<Rightarrow> nat" where
  "global_number_of_domains meshes = sum_list (map length meshes)"

definition max_all_reduce :: "nat \<Rightarrow> nat list list \<Rightarrow> nat list" where
  "max_all_reduce par_size locals =
     map (\<lambda>i. fold (\<lambda>local m. max m (local ! i)) locals 0) [0..<par_size]"

text \<open>
  The name of the topology: the option, or else the name of the first topology of the
  first local domain. Without a local domain, or without a topology in it, the source
  indexes an empty vector or child list: \<open>None\<close>.
  \<^verbatim>\<open>
  if( options.has_child("topology") ) { topo_name = options["topology"].as_string(); }
  else
  {
      const Node &dom_topo = domains[0]->fetch("topologies")[0];
      topo_name = dom_topo.name();
  }
  \<close>
\<close>

definition topo_name_of :: "options \<Rightarrow> mesh \<Rightarrow> string option" where
  "topo_name_of opts domains =
     (case op_topology opts of
        Some name \<Rightarrow> Some name
      | None \<Rightarrow>
         (case domains of
            [] \<Rightarrow> None
          | domn # _ \<Rightarrow> (case dm_topologies domn of [] \<Rightarrow> None | (name, _) # _ \<Rightarrow> Some name)))"

definition field_prefix_of :: "options \<Rightarrow> string" where
  "field_prefix_of opts = (case op_field_prefix opts of Some p \<Rightarrow> p | None \<Rightarrow> [])"

text \<open>
  The books of the counting loop: the four arrays of \<open>local_info\<close>, one entry per local
  domain, and the two running totals.
\<close>

record local_info =
  num_verts :: "nat list"
  num_eles :: "nat list"
  verts_offsets :: "nat list"
  eles_offsets :: "nat list"
  local_total_num_eles :: nat
  local_total_num_verts :: nat

text \<open>
  \<^verbatim>\<open>
  if(dom["topologies"].has_child(topo_name))
  {
      const Node &dom_topo = dom["topologies"][topo_name];
      local_num_eles[local_dom_idx] = blueprint::mesh::utils::topology::length(dom_topo);
      local_ele_offsets[local_dom_idx] = local_total_num_eles;
      local_total_num_eles += local_num_eles[local_dom_idx];
      const Node &dom_cset = dom["coordsets"][dom_topo["coordset"].as_string()];
      local_num_verts[local_dom_idx] = dom_cset["values/x"].dtype().number_of_elements();
      local_vert_offsets[local_dom_idx] = local_total_num_verts;
      local_total_num_verts += local_num_verts[local_dom_idx];
  }
  \<close>
  A coordset that is not there has no \<^verbatim>\<open>values/x\<close> to fetch: \<open>None\<close>.
\<close>

definition count_step :: "string \<Rightarrow> mesh \<Rightarrow> nat \<Rightarrow> local_info option \<Rightarrow> local_info option" where
  "count_step topo_name domains local_dom_idx st =
     (case st of
        None \<Rightarrow> None
      | Some li \<Rightarrow>
         (let domn = domains ! local_dom_idx in
          case map_of (dm_topologies domn) topo_name of
            None \<Rightarrow> Some li
          | Some dom_topo \<Rightarrow>
             (case map_of (dm_coordsets domn) (tp_coordset dom_topo) of
                None \<Rightarrow> None
              | Some n_verts \<Rightarrow>
                  Some \<lparr>num_verts = (num_verts li)[local_dom_idx := n_verts],
                        num_eles = (num_eles li)[local_dom_idx := tp_length dom_topo],
                        verts_offsets = (verts_offsets li)[local_dom_idx := local_total_num_verts li],
                        eles_offsets = (eles_offsets li)[local_dom_idx := local_total_num_eles li],
                        local_total_num_eles = local_total_num_eles li + tp_length dom_topo,
                        local_total_num_verts = local_total_num_verts li + n_verts\<rparr>)))"

text \<open>
  A Node set from a \<open>DataType\<close> of \<open>n\<close> elements owns a new buffer of \<open>n\<close> elements;
  Conduit's allocation fills it with zeros.
\<close>

definition new_array :: "nat \<Rightarrow> nat list" where
  "new_array n = replicate n 0"

definition count_local :: "string \<Rightarrow> mesh \<Rightarrow> local_info option" where
  "count_local topo_name domains =
     fold (count_step topo_name domains) [0..<length domains]
       (Some \<lparr>num_verts = new_array (length domains), num_eles = new_array (length domains),
              verts_offsets = new_array (length domains),
              eles_offsets = new_array (length domains),
              local_total_num_eles = 0, local_total_num_verts = 0\<rparr>)"

text \<open>
  The offset of a worker: the sum of the entries of the reduced vector below its rank.
  \<^verbatim>\<open>
  for(index_t i=0; i< par_rank; i++ ) { global_verts_offset += max_global_vals[i]; }
  \<close>
\<close>

definition global_offset :: "nat \<Rightarrow> nat list \<Rightarrow> nat" where
  "global_offset par_rank max_global_vals =
     fold (\<lambda>i off. off + max_global_vals ! i) [0..<par_rank] 0"

text \<open>
  The loop that writes the two fields of each local domain that has the topology.
  \<^verbatim>\<open>
  int64 vert_base_idx = global_verts_offset + local_vert_offsets[local_dom_idx];
  for(uint64 i=0; i < local_num_verts[local_dom_idx]; i++) { vert_ids_vals[i] = i + vert_base_idx; }
  \<close>
\<close>

definition id_field :: "string \<Rightarrow> string \<Rightarrow> nat \<Rightarrow> nat \<Rightarrow> field" where
  "id_field association topo_name n base_idx =
     \<lparr>fl_association = association, fl_topology = topo_name,
      fl_values = map (\<lambda>i. int i + int base_idx) [0..<n]\<rparr>"

definition emit_step ::
  "string \<Rightarrow> string \<Rightarrow> local_info \<Rightarrow> nat \<Rightarrow> nat \<Rightarrow> nat \<Rightarrow> mesh \<Rightarrow> mesh" where
  "emit_step topo_name field_prefix li global_verts_offset global_eles_offset local_dom_idx domains =
     (let domn = domains ! local_dom_idx in
      if map_of (dm_topologies domn) topo_name \<noteq> None then
        (let vert_base_idx = global_verts_offset + verts_offsets li ! local_dom_idx;
             fields1 = set_child (dm_fields domn) (field_prefix @ ''global_vertex_ids'')
                         (id_field ''vertex'' topo_name (num_verts li ! local_dom_idx) vert_base_idx);
             ele_base_idx = global_eles_offset + eles_offsets li ! local_dom_idx;
             fields2 = set_child fields1 (field_prefix @ ''global_element_ids'')
                         (id_field ''element'' topo_name (num_eles li ! local_dom_idx) ele_base_idx)
         in domains[local_dom_idx := domn\<lparr>dm_fields := fields2\<rparr>])
      else domains)"

text \<open>
  What one worker computes before the reductions (the name of the topology and the
  counts), and what it writes after them.
\<close>

definition worker_counts :: "options \<Rightarrow> mesh \<Rightarrow> (string \<times> local_info) option" where
  "worker_counts opts domains =
     (case topo_name_of opts domains of
        None \<Rightarrow> None
      | Some topo_name \<Rightarrow>
         (case count_local topo_name domains of
            None \<Rightarrow> None
          | Some li \<Rightarrow> Some (topo_name, li)))"

definition worker_emit ::
  "options \<Rightarrow> nat list \<Rightarrow> nat list \<Rightarrow> nat \<Rightarrow> string \<times> local_info \<Rightarrow> mesh \<Rightarrow> mesh" where
  "worker_emit opts max_global_verts max_global_eles par_rank counts domains =
     (case counts of (topo_name, li) \<Rightarrow>
        fold (emit_step topo_name (field_prefix_of opts) li
                (global_offset par_rank max_global_verts)
                (global_offset par_rank max_global_eles))
          [0..<length domains] domains)"

text \<open>
  \<^verbatim>\<open>generate_global_element_and_vertex_ids(mesh, options, comm)\<close>, run by all the workers
  of the communicator: the result is the mesh of each worker afterwards, or \<open>None\<close> when a
  worker fails. Each worker puts its total at its own rank of a new array:
  \<^verbatim>\<open>max_local_vals[par_rank] = local_total_num_verts;\<close>
\<close>

definition generate_global_element_and_vertex_ids :: "options \<Rightarrow> mesh list \<Rightarrow> mesh list option" where
  "generate_global_element_and_vertex_ids opts meshes =
     (let par_size = length meshes;
          global_num_doms = global_number_of_domains meshes in
      if global_num_doms = 0 then Some meshes
      else
       (case those (map (worker_counts opts) meshes) of
          None \<Rightarrow> None
        | Some counts \<Rightarrow>
           (let max_global_verts = max_all_reduce par_size
                  (map (\<lambda>par_rank. (new_array par_size)
                          [par_rank := local_total_num_verts (snd (counts ! par_rank))])
                     [0..<par_size]);
                max_global_eles = max_all_reduce par_size
                  (map (\<lambda>par_rank. (new_array par_size)
                          [par_rank := local_total_num_eles (snd (counts ! par_rank))])
                     [0..<par_size])
            in Some (map (\<lambda>par_rank.
                       worker_emit opts max_global_verts max_global_eles par_rank
                         (counts ! par_rank) (meshes ! par_rank))
                     [0..<par_size]))))"

text \<open>
  \<^verbatim>\<open>generate_partition_field(mesh, options, comm)\<close>: the ids, then the same test of the
  global number of domains, then the assembly of the arrays for the partitioner, the call
  and the write-back, which are the parameter \<open>partition_body\<close> here.
\<close>

definition generate_partition_field ::
  "(options \<Rightarrow> mesh list \<Rightarrow> mesh list option) \<Rightarrow> options \<Rightarrow> mesh list \<Rightarrow> mesh list option" where
  "generate_partition_field partition_body opts meshes =
     (case generate_global_element_and_vertex_ids opts meshes of
        None \<Rightarrow> None
      | Some meshes' \<Rightarrow>
         (let global_num_doms = global_number_of_domains meshes' in
          if global_num_doms = 0 then Some meshes' else partition_body opts meshes'))"

text \<open>
  A domain with one topology "mesh" of \<open>n_eles\<close> elements over the coordset "coords" with
  \<open>n_verts\<close> values along \<open>x\<close>; the options that name the topology, and the empty options.
\<close>

definition ex_domain :: "nat \<Rightarrow> nat \<Rightarrow> domain" where
  "ex_domain n_eles n_verts =
     \<lparr>dm_topologies = [(''mesh'', \<lparr>tp_length = n_eles, tp_coordset = ''coords''\<rparr>)],
      dm_coordsets = [(''coords'', n_verts)],
      dm_fields = []\<rparr>"

definition ex_options :: options where
  "ex_options = \<lparr>op_topology = Some ''mesh'', op_field_prefix = None\<rparr>"

definition ex_no_options :: options where
  "ex_no_options = \<lparr>op_topology = None, op_field_prefix = None\<rparr>"

subsection \<open>conduit\_blueprint\_mesh.cpp: vertex-associated fields on generated sides\<close>

text \<open>
  \<^verbatim>\<open>detail::vertex_associated_field<U, V, W>\<close>, which \<^verbatim>\<open>map_field_to_generated_sides\<close> calls
  for a vertex-associated field with \<open>U = float64\<close>. The destination values are of an
  abstract type \<open>'f\<close> with \<open>0\<close>, \<open>1\<close>, \<open>+\<close> and \<open>/\<close> taken from the syntactic classes
  (no law of arithmetic is assumed, so what is proved holds of the floating-point
  operations); \<open>conv\<close> is the conversion of a source value to the destination type.
  Vertex ids are natural numbers, and \<open>new_connec\<close> is the array
  \<^verbatim>\<open>topo_dest["elements/connectivity"]\<close>.

  The map \<^verbatim>\<open>std::map<int, std::set<int>> info\<close>: a set is the ascending list of its
  elements, which is the order of its iteration.
\<close>

fun set_insert :: "nat \<Rightarrow> nat list \<Rightarrow> nat list" where
  "set_insert x [] = [x]"
| "set_insert x (y # ys) =
     (if x < y then x # y # ys else if x = y then y # ys else y # set_insert x ys)"

type_synonym info_map = "nat \<rightharpoonup> nat list"

text \<open>\<^verbatim>\<open>info[key].insert(v)\<close>: the entry is created empty when it is not there.\<close>

definition info_insert :: "nat \<Rightarrow> nat \<Rightarrow> info_map \<Rightarrow> info_map" where
  "info_insert key v info =
     info(key \<mapsto> set_insert v (case info key of None \<Rightarrow> [] | Some s \<Rightarrow> s))"

text \<open>
  The map holds a relation between vertices: the entry of \<open>w\<close> is the ascending list of
  the vertices related to \<open>w\<close>, and there is no entry when there is none.
\<close>

definition info_represents :: "info_map \<Rightarrow> (nat \<times> nat) set \<Rightarrow> bool" where
  "info_represents info R \<longleftrightarrow>
     (\<forall>w. case info w of
            None \<Rightarrow> R `` {w} = {}
          | Some s \<Rightarrow> sorted_wrt (<) s \<and> set s = R `` {w} \<and> R `` {w} \<noteq> {})"

text \<open>
  The scan of one group of \<open>iter\<close> entries of the connectivity, starting at \<open>i\<close>:
  \<^verbatim>\<open>
  for (int j = i; j < i + iter; j ++)
      if (new_connec[j] >= typesafe_orig_num_points)
          for (int k = i; k < i + iter; k ++)
              if (k != j)
                  info[new_connec[j]].insert(new_connec[k]);
  \<close>
\<close>

definition scan_group :: "nat \<Rightarrow> nat list \<Rightarrow> nat \<Rightarrow> nat \<Rightarrow> info_map \<Rightarrow> info_map" where
  "scan_group iter new_connec orig_num_points i info =
     fold (\<lambda>j info.
             if new_connec ! j \<ge> orig_num_points then
               fold (\<lambda>k info. if k \<noteq> j then info_insert (new_connec ! j) (new_connec ! k) info
                               else info)
                 [i..<i + iter] info
             else info)
       [i..<i + iter] info"

text \<open>
  \<^verbatim>\<open>for (int i = 0; i < length_of_connec; i += iter)\<close>, for a connectivity whose length is
  a multiple of \<open>iter\<close> (the function below returns \<open>None\<close> for any other).
\<close>

definition scan_connec :: "nat \<Rightarrow> nat list \<Rightarrow> nat \<Rightarrow> info_map" where
  "scan_connec iter new_connec orig_num_points =
     fold (\<lambda>g info. scan_group iter new_connec orig_num_points (g * iter) info)
       [0..<length new_connec div iter] Map.empty"

text \<open>
  The value of a new point with an entry in the map:
  \<^verbatim>\<open>
  float64 sum = 0.0;  float64 num_neighbors = 0.0;
  for (it = info[i].begin(); it != info[i].end(); it ++)
      if (*it < orig_num_points) { sum += values_array[*it]; num_neighbors += 1.0; }
  values_array[i] = sum / num_neighbors;
  \<close>
\<close>

definition neighbor_mean :: "nat \<Rightarrow> ('f::{zero,one,plus,inverse}) list \<Rightarrow> nat list \<Rightarrow> 'f" where
  "neighbor_mean orig_num_points values_array neighbors =
     (case fold (\<lambda>it (sum_v, num_neighbors).
                   if it < orig_num_points then (sum_v + values_array ! it, num_neighbors + 1)
                   else (sum_v, num_neighbors))
             neighbors (0, 0) of
        (sum_v, num_neighbors) \<Rightarrow> sum_v / num_neighbors)"

text \<open>
  The function. A read or a write outside an array is undefined behaviour in the source;
  the conditions under which none happens are tested first, and the result is \<open>None\<close>
  when one would.
\<close>

definition vertex_associated_field ::
  "('v \<Rightarrow> 'f) \<Rightarrow> nat list \<Rightarrow> 'v list \<Rightarrow> nat \<Rightarrow> nat \<Rightarrow> nat \<Rightarrow> ('f::{zero,one,plus,inverse}) list
     \<Rightarrow> 'f list option" where
  "vertex_associated_field conv new_connec poly_field_data orig_num_points new_num_points
       dimensions values_array =
     (let iter = (if dimensions = 2 then 3 else 4) in
      if \<not> (orig_num_points \<le> length poly_field_data \<and>
             orig_num_points \<le> length values_array \<and>
             new_num_points \<le> length values_array \<and>
             length new_connec mod iter = 0)
      then None
      else
        let values_array = fold (\<lambda>i values_array. values_array[i := conv (poly_field_data ! i)])
                             [0..<orig_num_points] values_array;
            info = scan_connec iter new_connec orig_num_points
        in Some (fold (\<lambda>i values_array.
                         case info i of
                           Some neighbors \<Rightarrow>
                             values_array[i := neighbor_mean orig_num_points values_array neighbors]
                         | None \<Rightarrow> values_array[i := 0])
                   [orig_num_points..<new_num_points] values_array))"

subsubsection \<open>What the specification says of the mapped values\<close>

text \<open>
  The vertices adjacent to \<open>v\<close> in the connectivity: those that stand, in a group of
  \<open>iter\<close> entries (a side) where \<open>v\<close> stands, at another position. The original ones
  among them, ascending and without repetition; and the mean of a list of values, the sum
  from the left divided by the count.
\<close>

definition adjacent :: "nat \<Rightarrow> nat list \<Rightarrow> nat \<Rightarrow> nat list" where
  "adjacent iter conn v =
     [conn ! k. j \<leftarrow> [0..<length conn], conn ! j = v,
                k \<leftarrow> [j div iter * iter..<j div iter * iter + iter], k \<noteq> j]"

definition original_neighbors :: "nat \<Rightarrow> nat list \<Rightarrow> nat \<Rightarrow> nat \<Rightarrow> nat list" where
  "original_neighbors iter conn orig v =
     sort (remdups (filter (\<lambda>u. u < orig) (adjacent iter conn v)))"

definition mean :: "('f::{zero,one,plus,inverse}) list \<Rightarrow> 'f" where
  "mean vs = foldl (+) 0 vs / foldl (\<lambda>c v. c + 1) 0 vs"

text \<open>
  Every side of the connectivity has an original vertex. The sides that
  \<^verbatim>\<open>generate_sides\<close> writes do: the first two entries of each are the end points of a line
  of the source topology, the others are the centroids added after the original points.
\<close>

definition sides_have_original :: "nat \<Rightarrow> nat list \<Rightarrow> nat \<Rightarrow> bool" where
  "sides_have_original iter conn orig =
     list_all (\<lambda>g. list_ex (\<lambda>k. conn ! (g * iter + k) < orig) [0..<iter])
       [0..<length conn div iter]"

text \<open>
  A triangle of three points split into its three sides around the centroid, point 3;
  the field on the three points, and a fifth point that no side uses.
\<close>

definition ex_sides :: "nat list" where
  "ex_sides = [0, 1, 3, 1, 2, 3, 2, 0, 3]"

definition ex_field :: "rat list" where
  "ex_field = [3, 6, 9]"

section \<open>Properties\<close>

subsection \<open>Auxiliary facts\<close>

lemma size_t_minus_one: "unat (- 1 :: size_t) = 18446744073709551615"
  by (simp add: unsigned_minus_1_eq_mask mask_eq_exp_minus_1)

lemma join_file_path_nonempty_left:
  assumes "left \<noteq> []" and "length left < 18446744073709551615"
  shows "join_file_path sep left right =
           Inl (Subscript_out_of_range 18446744073709551615 (length left))"
  using assms by (simp add: join_file_path_def string_subscript_def size_t_minus_one)

lemma join_file_path_empty_left: "join_file_path sep [] right = Inr right"
  by (simp add: join_file_path_def)

subsection \<open>Facts about the coordset conversion\<close>

lemma fold_product:
  "fold (\<lambda>x. fold (h x) ys) xs = fold (\<lambda>(x, y). h x y) (List.product xs ys)"
  by (induction xs) (simp_all add: fold_map comp_def)

lemma length_fold_update [simp]:
  "length (fold (\<lambda>x dst. dst[f x := g x]) xs dst) = length dst"
  by (induction xs arbitrary: dst) simp_all

lemma fold_update_nth:
  assumes "k < length dst" and "x \<in> set xs" and "f x = k"
    and "\<forall>y\<in>set xs. f y = k \<longrightarrow> g y = v"
  shows "fold (\<lambda>x dst. dst[f x := g x]) xs dst ! k = v"
  using assms
proof (induction xs arbitrary: dst rule: rev_induct)
  case Nil
  then show ?case by simp
next
  case (snoc y ys)
  show ?case
  proof (cases "f y = k")
    case True
    with snoc.prems show ?thesis by simp
  next
    case False
    with snoc.prems have "x \<in> set ys" by auto
    with snoc False show ?thesis by simp
  qed
qed

lemma block_offset_div:
  fixes d b bi bs L :: nat
  assumes "bi < bs" and "d < L"
  shows "((d * bs + b * bs * L + bi) div bs) mod L = d"
proof -
  have "d * bs + b * bs * L + bi = bi + (d + b * L) * bs"
    by (simp add: algebra_simps)
  with assms show ?thesis by simp
qed

lemma block_offset_decompose:
  fixes k bs L :: nat
  shows "((k div bs) mod L) * bs + (k div (bs * L)) * bs * L + k mod bs = k"
proof -
  have distr: "x * bs + y * bs * L = (x + y * L) * bs" for x y :: nat
    by (simp add: algebra_simps)
  have "((k div bs) mod L) * bs + ((k div bs) div L) * bs * L = (k div bs) * bs"
    unfolding distr by simp
  moreover have "k div (bs * L) = (k div bs) div L"
    by (simp add: div_mult2_eq)
  ultimately show ?thesis by simp
qed

lemma fill_axis_flat:
  "fill_axis L bs bc val dst =
     fold (\<lambda>x dst. dst[(case x of (d, b, bi) \<Rightarrow> d * bs + b * bs * L + bi)
                       := (case x of (d, b, bi) \<Rightarrow> val d)])
       (List.product [0..<L] (List.product [0..<bc] [0..<bs])) dst"
  unfolding fill_axis_def Let_def fold_product
  by (rule arg_cong [where f = "\<lambda>h. fold h _ dst"]) (auto simp: fun_eq_iff)

lemma length_fill_axis [simp]: "length (fill_axis L bs bc val dst) = length dst"
  unfolding fill_axis_flat by simp

lemma fill_axis_nth:
  assumes "k < length dst" and "length dst = L * bs * bc"
  shows "fill_axis L bs bc val dst ! k = val ((k div bs) mod L)"
proof -
  have pos: "0 < bs" "0 < L" "0 < bc"
    using assms by (cases bs; cases L; cases bc; simp)+
  define f where "f = (\<lambda>x :: nat \<times> nat \<times> nat. case x of (d, b, bi) \<Rightarrow> d * bs + b * bs * L + bi)"
  define g where "g = (\<lambda>x :: nat \<times> nat \<times> nat. case x of (d, b, bi) \<Rightarrow> val d)"
  define x where "x = ((k div bs) mod L, k div (bs * L), k mod bs)"
  define xs where "xs = List.product [0..<L] (List.product [0..<bc] [0..<bs])"
  have "k div (bs * L) < bc"
    using assms by (simp add: less_mult_imp_div_less mult.commute mult.left_commute)
  with pos have mem: "x \<in> set xs"
    by (simp add: x_def xs_def)
  have off: "f x = k"
    using block_offset_decompose [of k bs L] by (simp add: f_def x_def)
  have same: "\<forall>y\<in>set xs. f y = k \<longrightarrow> g y = val ((k div bs) mod L)"
    by (auto simp: f_def g_def xs_def block_offset_div)
  have "fold (\<lambda>x dst. dst[f x := g x]) xs dst ! k = val ((k div bs) mod L)"
    by (rule fold_update_nth [OF assms(1) mem off same])
  then show ?thesis
    unfolding fill_axis_flat f_def g_def xs_def .
qed


lemma those_map_the:
  assumes "\<forall>x\<in>set xs. f x \<noteq> None"
  shows "those (map f xs) = Some (map (\<lambda>x. the (f x)) xs)"
  using assms by (induction xs) auto

lemma fold_mult_prod_take:
  "n \<le> length ls \<Longrightarrow> fold (\<lambda>i c. c * ls ! i) [0..<n] (1::nat) = prod_list (take n ls)"
  by (induction n) (simp_all add: take_Suc_conv_app_nth)

lemma dim_block_size_prod:
  "i \<le> n \<Longrightarrow> n \<le> length ls \<Longrightarrow> dim_block_size n ls i = prod_list (take i ls)"
  unfolding dim_block_size_def
proof (induction n)
  case 0
  then show ?case by simp
next
  case (Suc n)
  show ?case
  proof (cases "i = Suc n")
    case True
    have "fold (\<lambda>j s. s * (if j < Suc n then ls ! j else 1)) [0..<Suc n] (1::nat)
            = fold (\<lambda>j s. s * ls ! j) [0..<Suc n] 1"
      by (rule fold_cong) auto
    with True Suc.prems show ?thesis
      by (simp only: fold_mult_prod_take)
  next
    case False
    with Suc show ?thesis by simp
  qed
qed

lemma dim_block_count_prod:
  "i < n \<Longrightarrow> n \<le> length ls \<Longrightarrow> dim_block_count n ls i = prod_list (drop (Suc i) (take n ls))"
  unfolding dim_block_count_def
proof (induction n)
  case 0
  then show ?case by simp
next
  case (Suc n)
  show ?case
  proof (cases "i = n")
    case True
    have "fold (\<lambda>j s. s * (if n < j then ls ! j else 1)) [0..<n] (1::nat)
            = fold (\<lambda>j s. s) [0..<n] 1"
      by (rule fold_cong) auto
    also have "\<dots> = 1" by (induction n) simp_all
    finally show ?thesis using True by simp
  next
    case False
    with Suc.prems have "i < n" "n < length ls" by auto
    with Suc.IH show ?thesis
      by (simp add: take_Suc_conv_app_nth)
  qed
qed

lemma prod_list_split_nth:
  "i < length ls \<Longrightarrow> prod_list ls = ls ! i * prod_list (take i ls) * prod_list (drop (Suc i) ls)"
  for ls :: "nat list"
proof -
  assume "i < length ls"
  then have "ls = take i ls @ ls ! i # drop (Suc i) ls"
    by (rule id_take_nth_drop)
  then have "prod_list ls = prod_list (take i ls @ ls ! i # drop (Suc i) ls)"
    by simp
  then show ?thesis by (simp add: mult_ac)
qed


lemma axis_coordinate_fetch:
  "axis_coordinate of_index rect coordset axis d =
     (if rect
      then (case fetch (cs_values coordset) axis of None \<Rightarrow> 0 | Some vs \<Rightarrow> vs ! d)
      else (case fetch (cs_origin coordset) axis of None \<Rightarrow> 0 | Some x \<Rightarrow> x)
           + of_index d *
             (case fetch (cs_spacing coordset) (''d'' @ axis) of None \<Rightarrow> 1 | Some dx \<Rightarrow> dx))"
  by (simp add: axis_coordinate_def fetch_def split: option.splits)

lemma axis_values_Some:
  assumes "a < length csys_axes"
    and "src_cvals coordset (csys_axes ! a) \<noteq> None"
    and "dim_origin coordset (csys_axes ! a) \<noteq> None"
    and "dim_spacing coordset (csys_axes ! a) \<noteq> None"
    and "dim_len rect csys_axes coordset a \<noteq> None"
    and "length lens = length csys_axes"
    and "coords_len = prod_list lens"
  shows "\<exists>vs. axis_values of_index cast rect csys_axes coordset lens coords_len a
                 = Some (csys_axes ! a, vs) \<and> length vs = coords_len \<and>
              (\<forall>k<coords_len. vs ! k
                  = cast (axis_coordinate of_index rect coordset (csys_axes ! a)
                            (grid_coord lens a k)))"
proof -
  from assms(2) obtain src where src: "src_cvals coordset (csys_axes ! a) = Some src" by auto
  from assms(3) obtain orig where orig: "dim_origin coordset (csys_axes ! a) = Some orig" by auto
  from assms(4) obtain sp where sp: "dim_spacing coordset (csys_axes ! a) = Some sp" by auto
  let ?val = "\<lambda>d. cast (if rect then src ! d else orig + of_index d * sp)"
  let ?bs = "dim_block_size (length csys_axes) lens a"
  let ?bc = "dim_block_count (length csys_axes) lens a"
  let ?vs = "fill_axis (lens ! a) ?bs ?bc ?val (replicate coords_len 0)"
  have av: "axis_values of_index cast rect csys_axes coordset lens coords_len a
              = Some (csys_axes ! a, ?vs)"
    by (simp add: axis_values_def src orig sp)
  have bs: "?bs = prod_list (take a lens)"
    using assms(1,6) by (simp add: dim_block_size_prod)
  have bc: "?bc = prod_list (drop (Suc a) lens)"
    using assms(1,6) by (simp add: dim_block_count_prod)
  have len: "coords_len = lens ! a * ?bs * ?bc"
    using assms(1,6,7) prod_list_split_nth [of a lens] by (simp add: bs bc)
  have coord: "?val d = cast (axis_coordinate of_index rect coordset (csys_axes ! a) d)" for d
  proof (cases rect)
    case True
    with assms(5) have "cs_values coordset \<noteq> None"
      by (auto simp: dim_len_def fetch_def split: option.splits)
    with src True show ?thesis
      by (simp add: axis_coordinate_fetch src_cvals_def)
  next
    case False
    have "(case fetch (cs_origin coordset) (csys_axes ! a) of None \<Rightarrow> 0 | Some x \<Rightarrow> x) = orig"
      using orig by (auto simp: dim_origin_def fetch_def split: if_splits option.splits)
    moreover have "(case fetch (cs_spacing coordset) (''d'' @ csys_axes ! a) of
                      None \<Rightarrow> 1 | Some x \<Rightarrow> x) = sp"
      using sp by (auto simp: dim_spacing_def fetch_def split: if_splits option.splits)
    ultimately show ?thesis using False
      by (simp add: axis_coordinate_fetch)
  qed
  have "\<forall>k<coords_len. ?vs ! k
          = cast (axis_coordinate of_index rect coordset (csys_axes ! a) (grid_coord lens a k))"
  proof (intro allI impI)
    fix k assume "k < coords_len"
    then have "?vs ! k = ?val ((k div ?bs) mod (lens ! a))"
      using len by (intro fill_axis_nth) simp_all
    then show "?vs ! k
          = cast (axis_coordinate of_index rect coordset (csys_axes ! a) (grid_coord lens a k))"
      by (simp only: coord grid_coord_def bs)
  qed
  with av show ?thesis by simp
qed

lemma ex_uniform_explicit:
  "convert_coordset_to_explicit of_nat id ''uniform'' [''x'', ''y''] ex_uniform =
     Some \<lparr>ec_type = ''explicit'',
           ec_values = [(''x'', [0, 1, 2, 0, 1, 2]), (''y'', [0, 0, 0, 2, 2, 2])]\<rparr>"
  by (simp add: convert_coordset_to_explicit_def ex_uniform_def dim_len_def fetch_def
      LOGICAL_AXES_def axis_values_def src_cvals_def dim_origin_def dim_spacing_def
      dim_block_size_def dim_block_count_def fill_axis_def upt_rec [of _ "numeral _"]
      upt_rec [of _ "Suc _"] eval_nat_numeral)

lemma ex_rectilinear_explicit:
  "convert_coordset_to_explicit of_nat id ''rectilinear'' [''x'', ''y''] ex_rectilinear =
     Some \<lparr>ec_type = ''explicit'',
           ec_values = [(''x'', [0, 1, 3, 0, 1, 3]), (''y'', [0, 0, 0, 5, 5, 5 :: rat])]\<rparr>"
  by code_simp

lemma child_present_fetch:
  assumes "child_present node name"
  shows "\<exists>v. fetch node name = Some v \<and> node \<noteq> None"
proof -
  from assms obtain cs where cs: "node = Some cs" "name \<in> fst ` set cs"
    by (auto simp: child_present_def list_ex_iff split: option.splits)
  then have "map_of cs name \<noteq> None"
    by (simp add: map_of_eq_None_iff)
  with cs(1) show ?thesis
    by (auto simp: fetch_def)
qed

lemma axes_present_fetches:
  assumes "axes_present rect csys_axes coordset" and "a < length csys_axes"
    and "length csys_axes \<le> 3"
  shows "dim_len rect csys_axes coordset a = Some (axis_lens rect csys_axes coordset ! a)"
    and "src_cvals coordset (csys_axes ! a) \<noteq> None"
    and "dim_origin coordset (csys_axes ! a) \<noteq> None"
    and "dim_spacing coordset (csys_axes ! a) \<noteq> None"
proof -
  from assms(1,2) have
    cnt: "if rect then child_present (cs_values coordset) (csys_axes ! a)
          else child_present (cs_dims coordset) ([''i'', ''j'', ''k''] ! a) \<and>
               (cs_values coordset = None \<or> child_present (cs_values coordset) (csys_axes ! a))"
    and org: "cs_origin coordset = None \<or> child_present (cs_origin coordset) (csys_axes ! a)"
    and spc: "cs_spacing coordset = None \<or>
              child_present (cs_spacing coordset) (''d'' @ csys_axes ! a)"
    by (simp_all add: axes_present_def list_all_iff)
  show "dim_len rect csys_axes coordset a = Some (axis_lens rect csys_axes coordset ! a)"
  proof (cases rect)
    case True
    with cnt obtain xs where "fetch (cs_values coordset) (csys_axes ! a) = Some xs"
      using child_present_fetch by fastforce
    with True assms(2) show ?thesis
      by (auto simp: dim_len_def axis_lens_def rectilinear_count_def fetch_def
          split: option.splits)
  next
    case False
    with cnt obtain n where "fetch (cs_dims coordset) ([''i'', ''j'', ''k''] ! a) = Some n"
      using child_present_fetch by fastforce
    with False assms(2) show ?thesis
      by (auto simp: dim_len_def axis_lens_def uniform_count_def fetch_def LOGICAL_AXES_def
          split: option.splits)
  qed
  show "src_cvals coordset (csys_axes ! a) \<noteq> None"
  proof (cases "cs_values coordset = None")
    case True
    then show ?thesis by (simp add: src_cvals_def)
  next
    case False
    with cnt have "child_present (cs_values coordset) (csys_axes ! a)"
      by (auto split: if_splits)
    from child_present_fetch [OF this] show ?thesis
      by (auto simp: src_cvals_def)
  qed
  show "dim_origin coordset (csys_axes ! a) \<noteq> None"
    using org child_present_fetch [of "cs_origin coordset" "csys_axes ! a"]
    by (auto simp: dim_origin_def)
  show "dim_spacing coordset (csys_axes ! a) \<noteq> None"
    using spc child_present_fetch [of "cs_spacing coordset" "''d'' @ csys_axes ! a"]
    by (auto simp: dim_spacing_def)
qed

subsection \<open>Facts about the connectivity of a structured grid\<close>

lemma drop_bit_and_exp: "drop_bit d ((i::nat) AND 2 ^ d) = (if bit i d then 1 else 0)"
proof -
  have "drop_bit d (i AND 2 ^ d) = drop_bit d i AND 1"
    by (simp add: drop_bit_exp_eq)
  also have "\<dots> = drop_bit d i mod 2"
    by (simp add: and_one_eq)
  also have "\<dots> = (if bit i d then 1 else 0)"
    by (simp add: bit_iff_odd_drop_bit odd_iff_mod_2_eq_one)
  finally show ?thesis .
qed

lemmas small_numerals = numeral_2_eq_2 numeral_3_eq_3

lemma grid_ijk_to_id_3:
  "grid_ijk_to_id [i, j, k] [a, b, c] = i + j * a + k * a * b"
  by (simp add: grid_ijk_to_id_def small_numerals)


lemma grid_id_to_ijk_3:
  "grid_id_to_ijk e [a, b, c] [x, y, z] =
     (if a * b = 0 then None
      else Some [e mod (a * b) mod a, e mod (a * b) div a, e div (a * b)])"
  by (simp add: grid_id_to_ijk_def small_numerals Let_def)

lemma fold_update_nth_other:
  assumes "\<forall>x\<in>set xs. f x \<noteq> k"
  shows "fold (\<lambda>x dst. dst[f x := g x]) xs dst ! k = dst ! k"
  using assms by (induction xs arbitrary: dst) simp_all

lemma grid_id_to_ijk_coords:
  assumes "e < a * b * c"
  shows "grid_id_to_ijk e [a, b, c] [x, y, z] =
           Some (map (\<lambda>d. grid_coord [a, b, c] d e) [0..<3])"
proof -
  from assms have pos: "0 < a" "0 < b" "0 < c"
    by (cases a; cases b; cases c; simp)+
  have c0: "e mod (a * b) mod a = e mod a"
    by (simp add: mod_mod_cancel)
  have c1: "e mod (a * b) div a = (e div a) mod b"
    using pos by (simp add: mod_mult2_eq)
  have "e div (a * b) < c"
    using assms by (simp add: less_mult_imp_div_less mult.commute)
  then have c2: "e div (a * b) = (e div (a * b)) mod c"
    by simp
  show ?thesis
    using pos c2 by (simp add: grid_id_to_ijk_3 c0 c1 grid_coord_def small_numerals)
qed

lemma cell_vertex_3:
  "cell_vertex [a, b, c] e i =
     (grid_coord [a, b, c] 0 e + bit_dir i 0)
     + (grid_coord [a, b, c] 1 e + bit_dir i 1) * Suc a
     + (grid_coord [a, b, c] 2 e + bit_dir i 2) * Suc a * Suc b"
  by (simp add: cell_vertex_def grid_point_id_def small_numerals algebra_simps)

lemma not_bit_ge:
  "i < 2 ^ n \<Longrightarrow> n \<le> d \<Longrightarrow> \<not> bit (i::nat) d"
proof -
  assume "i < 2 ^ n" and "n \<le> d"
  then have "i < 2 ^ d"
    by (meson le_less_trans less_le_trans not_le one_le_numeral power_increasing)
  then show ?thesis
    by (simp add: bit_iff_odd)
qed


lemma curr_vert_value:
  assumes "n = 2 \<or> n = 3" and "i < 2 ^ n"
  shows "grid_ijk_to_id
           (fold (\<lambda>d curr_vert. curr_vert[d := curr_vert ! d + drop_bit d (i AND 2 ^ d)])
              [0..<n] (map (\<lambda>d. grid_coord [a, b, c] d e) [0..<3]))
           [Suc a, Suc b, Suc c]
         = cell_vertex [a, b, c] e i"
proof -
  have step: "(\<lambda>d curr_vert. curr_vert[d := curr_vert ! d + drop_bit d (i AND 2 ^ d)])
                = (\<lambda>d curr_vert. curr_vert[d := curr_vert ! d + bit_dir i d])"
    unfolding drop_bit_and_exp bit_dir_def ..
  from assms(1) show ?thesis
  proof
    assume n: "n = 2"
    with assms(2) have "\<not> bit i 2"
      by (intro not_bit_ge [of i 2]) simp_all
    then have "bit_dir i (Suc (Suc 0)) = 0"
      by (simp add: small_numerals bit_dir_def)
    then show ?thesis
      unfolding step by (simp add: n small_numerals grid_ijk_to_id_3 cell_vertex_3)
  next
    assume n: "n = 3"
    show ?thesis
      unfolding step by (simp add: n small_numerals grid_ijk_to_id_3 cell_vertex_3)
  qed
qed

lemma elem_vertices_length [simp]:
  "length (elem_vertices n ipe vdims curr_elem e conn) = length conn"
  by (simp add: elem_vertices_def Let_def)

lemma elem_vertices_other:
  assumes "k < e * ipe \<or> (e + 1) * ipe \<le> k"
  shows "elem_vertices n ipe vdims curr_elem e conn ! k = conn ! k"
  unfolding elem_vertices_def Let_def
  using assms by (intro fold_update_nth_other) auto

lemma elem_vertices_nth:
  assumes "n = 2 \<or> n = 3" and "i < 2 ^ n" and "e * 2 ^ n + i < length conn"
  shows "elem_vertices n (2 ^ n) [Suc a, Suc b, Suc c]
           (map (\<lambda>d. grid_coord [a, b, c] d e) [0..<3]) e conn ! (e * 2 ^ n + i)
         = cell_vertex [a, b, c] e i"
  unfolding elem_vertices_def Let_def
proof (rule fold_update_nth [where x = i])
  show "e * 2 ^ n + i < length conn" by fact
  show "i \<in> set [0..<2 ^ n]" using assms(2) by simp
  show "e * 2 ^ n + i = e * 2 ^ n + i" ..
  show "\<forall>y\<in>set [0..<2 ^ n]. e * 2 ^ n + y = e * 2 ^ n + i \<longrightarrow>
          grid_ijk_to_id
            (fold (\<lambda>d curr_vert. curr_vert[d := curr_vert ! d + drop_bit d (y AND 2 ^ d)])
               [0..<n] (map (\<lambda>d. grid_coord [a, b, c] d e) [0..<3]))
            [Suc a, Suc b, Suc c]
          = cell_vertex [a, b, c] e i"
    using curr_vert_value [OF assms(1,2)] by simp
qed

lemma swap_pairs_4:
  "swap_pairs 4 e 2 conn = conn[e * 4 + 2 := conn ! (e * 4 + 3), e * 4 + 3 := conn ! (e * 4 + 2)]"
  by (subst swap_pairs.simps, subst swap_pairs.simps) (simp add: Let_def eval_nat_numeral)

lemma swap_pairs_8:
  "swap_pairs 8 e 2 conn =
     conn[e * 8 + 2 := conn ! (e * 8 + 3), e * 8 + 3 := conn ! (e * 8 + 2),
          e * 8 + 6 := conn ! (e * 8 + 7), e * 8 + 7 := conn ! (e * 8 + 6)]"
  by (subst swap_pairs.simps, subst swap_pairs.simps, subst swap_pairs.simps)
     (simp add: Let_def eval_nat_numeral)

lemma swap_pairs_length [simp]:
  "n = 2 \<or> n = 3 \<Longrightarrow> length (swap_pairs (2 ^ n) e 2 conn) = length conn"
  by (auto simp: swap_pairs_4 swap_pairs_8)

lemma swap_pairs_other:
  assumes "n = 2 \<or> n = 3" and "k < e * 2 ^ n \<or> (e + 1) * 2 ^ n \<le> k"
  shows "swap_pairs (2 ^ n) e 2 conn ! k = conn ! k"
  using assms by (auto simp: swap_pairs_4 swap_pairs_8)

lemma less_4_cases: "i < 4 \<Longrightarrow> i = 0 \<or> i = 1 \<or> i = 2 \<or> i = (3::nat)"
  by arith

lemma less_8_cases:
  "i < 8 \<Longrightarrow> i = 0 \<or> i = 1 \<or> i = 2 \<or> i = 3 \<or> i = 4 \<or> i = 5 \<or> i = 6 \<or> i = (7::nat)"
  by arith

lemma swap_pairs_nth:
  assumes "n = 2 \<or> n = 3" and "i < 2 ^ n" and "(e + 1) * 2 ^ n \<le> length conn"
  shows "swap_pairs (2 ^ n) e 2 conn ! (e * 2 ^ n + i) = conn ! (e * 2 ^ n + swap_last_two i)"
  using assms(1)
proof
  assume n: "n = 2"
  with assms(3) have len: "e * 4 + 4 \<le> length conn" by simp
  from n assms(2) have "i = 0 \<or> i = 1 \<or> i = 2 \<or> i = 3"
    by (intro less_4_cases) simp
  then have "conn[e * 4 + 2 := conn ! (e * 4 + 3), e * 4 + 3 := conn ! (e * 4 + 2)] ! (e * 4 + i)
               = conn ! (e * 4 + swap_last_two i)"
    using len by (elim disjE) (simp_all add: swap_last_two_def nth_list_update)
  moreover have "(2::nat) ^ 2 = 4" by simp
  ultimately show ?thesis
    by (simp only: n swap_pairs_4)
next
  assume n: "n = 3"
  with assms(3) have len: "e * 8 + 8 \<le> length conn" by simp
  from n assms(2)
  have "i = 0 \<or> i = 1 \<or> i = 2 \<or> i = 3 \<or> i = 4 \<or> i = 5 \<or> i = 6 \<or> i = 7"
    by (intro less_8_cases) simp
  then have "conn[e * 8 + 2 := conn ! (e * 8 + 3), e * 8 + 3 := conn ! (e * 8 + 2),
                  e * 8 + 6 := conn ! (e * 8 + 7), e * 8 + 7 := conn ! (e * 8 + 6)] ! (e * 8 + i)
               = conn ! (e * 8 + swap_last_two i)"
    using len by (elim disjE) (simp_all add: swap_last_two_def nth_list_update)
  moreover have "(2::nat) ^ 3 = 8" by simp
  ultimately show ?thesis
    by (simp only: n swap_pairs_8)
qed

lemma swap_last_two_less:
  "n = 2 \<or> n = 3 \<Longrightarrow> i < 2 ^ n \<Longrightarrow> swap_last_two i < 2 ^ n"
  by (auto simp: swap_last_two_def dest!: less_4_cases less_8_cases)


lemma connectivity_elem_step:
  "connectivity n edims =
     fold (elem_step n edims (fold (\<lambda>d vdims_axes. vdims_axes[d := edims ! d + 1]) [0..<3] [1, 1, 1]))
       [0..<fold (\<lambda>d num_elems. num_elems * edims ! d) [0..<3] 1]
       (Some (replicate (fold (\<lambda>d num_elems. num_elems * edims ! d) [0..<3] 1 * 2 ^ n) 0))"
  unfolding connectivity_def Let_def ..

lemma elem_loop_invariant:
  assumes n: "n = 2 \<or> n = 3" and "m \<le> a * b * c" and "length conn0 = a * b * c * 2 ^ n"
  shows "\<exists>conn. fold (elem_step n [a, b, c] [Suc a, Suc b, Suc c]) [0..<m] (Some conn0) = Some conn \<and>
           length conn = a * b * c * 2 ^ n \<and>
           (\<forall>e<m. \<forall>i<2 ^ n. conn ! (e * 2 ^ n + i) = cell_vertex [a, b, c] e (swap_last_two i))"
  using assms(2)
proof (induction m)
  case 0
  with assms(3) show ?case by simp
next
  case (Suc m)
  then have m: "m < a * b * c" by simp
  with Suc.IH obtain conn where
    run: "fold (elem_step n [a, b, c] [Suc a, Suc b, Suc c]) [0..<m] (Some conn0) = Some conn"
    and len: "length conn = a * b * c * 2 ^ n"
    and prev: "\<forall>e<m. \<forall>i<2 ^ n. conn ! (e * 2 ^ n + i) = cell_vertex [a, b, c] e (swap_last_two i)"
    by auto
  let ?ev = "elem_vertices n (2 ^ n) [Suc a, Suc b, Suc c]
               (map (\<lambda>d. grid_coord [a, b, c] d m) [0..<3]) m conn"
  let ?conn = "swap_pairs (2 ^ n) m 2 ?ev"
  from m have "Suc m \<le> a * b * c" by simp
  then have "Suc m * 2 ^ n \<le> a * b * c * 2 ^ n"
    by (rule mult_le_mono1)
  then have room: "(m + 1) * 2 ^ n \<le> length conn"
    using len by simp
  have step: "fold (elem_step n [a, b, c] [Suc a, Suc b, Suc c]) [0..<Suc m] (Some conn0)
                = Some ?conn"
    using m by (simp add: run elem_step_def grid_id_to_ijk_coords)
  have length: "length ?conn = a * b * c * 2 ^ n"
    using n len by simp
  have "?conn ! (e * 2 ^ n + i) = cell_vertex [a, b, c] e (swap_last_two i)"
    if "e < Suc m" and "i < 2 ^ n" for e i
  proof (cases "e = m")
    case True
    have sw: "swap_last_two i < 2 ^ n"
      using n that(2) by (rule swap_last_two_less)
    have "?conn ! (m * 2 ^ n + i) = ?ev ! (m * 2 ^ n + swap_last_two i)"
      using n that(2) room by (intro swap_pairs_nth) simp_all
    also have "\<dots> = cell_vertex [a, b, c] m (swap_last_two i)"
      using n sw room by (intro elem_vertices_nth) simp_all
    finally show ?thesis using True by simp
  next
    case False
    with that have "e < m" by simp
    then have "Suc e \<le> m" by simp
    then have "Suc e * 2 ^ n \<le> m * 2 ^ n"
      by (rule mult_le_mono1)
    with that(2) have before: "e * 2 ^ n + i < m * 2 ^ n"
      by simp
    then have "?conn ! (e * 2 ^ n + i) = ?ev ! (e * 2 ^ n + i)"
      using n by (intro swap_pairs_other) simp_all
    also have "\<dots> = conn ! (e * 2 ^ n + i)"
      using before by (intro elem_vertices_other) simp
    finally show ?thesis
      using prev \<open>e < m\<close> that(2) by simp
  qed
  with step length show ?case by blast
qed

lemma connectivity_cells:
  assumes "n = 2 \<or> n = 3"
  shows "\<exists>conn. connectivity n [a, b, c] = Some conn \<and>
           length conn = a * b * c * 2 ^ n \<and>
           (\<forall>e<a * b * c. \<forall>i<2 ^ n.
              conn ! (e * 2 ^ n + i) = cell_vertex [a, b, c] e (swap_last_two i))"
proof -
  have num: "fold (\<lambda>d num_elems. num_elems * [a, b, c] ! d) [0..<3] 1 = a * b * c"
    by (simp add: small_numerals)
  have vd: "fold (\<lambda>d vdims_axes. vdims_axes[d := [a, b, c] ! d + 1]) [0..<3] [1, 1, 1]
              = [Suc a, Suc b, Suc c]"
    by (simp add: small_numerals)
  show ?thesis
    unfolding connectivity_elem_step num vd
    using assms by (intro elem_loop_invariant) simp_all
qed

lemma those_map_default:
  assumes "\<forall>x\<in>set xs. f x \<noteq> None"
  shows "those (map f xs) = Some (map (\<lambda>x. case f x of None \<Rightarrow> d | Some y \<Rightarrow> y) xs)"
  using assms by (induction xs) auto

lemma structured_edims_list:
  assumes "length csys_axes = 2 \<or> length csys_axes = 3"
  shows "map (\<lambda>a. case edims_axis ''structured'' csys_axes topo coordset a of
                    None \<Rightarrow> 0 | Some v \<Rightarrow> v) [0..<length csys_axes]
           @ replicate (3 - length csys_axes) 1
         = structured_edims csys_axes topo"
  using assms
proof
  assume "length csys_axes = 2"
  then show ?thesis
    by (simp add: structured_edims_def edims_axis_def small_numerals)
next
  assume "length csys_axes = 3"
  then show ?thesis
    by (simp add: structured_edims_def edims_axis_def small_numerals)
qed

lemma ex_grid_connectivity:
  "structured_to_unstructured [''x'', ''y''] ''coords'' ex_grid ex_coords =
     Some \<lparr>ut_type = ''unstructured'', ut_coordset = ''coords'', ut_origin = None,
           ut_shape = ''quad'',
           ut_connectivity = [0, 1, 4, 3, 1, 2, 5, 4, 3, 4, 7, 6, 4, 5, 8, 7]\<rparr>"
  by code_simp

subsection \<open>Facts about the conversion to polygonal\<close>

lemma to_polygonal_poly:
  "is_poly (shape_of (el_shape (pt_elements topo))) \<Longrightarrow>
     to_polygonal shape_of embed_shape_of generate_offsets topo = Some topo"
  by (simp add: to_polygonal_def)

lemma to_polygonal_result_poly:
  assumes "names_shapes shape_of" and "keeps_shape generate_offsets"
    and "to_polygonal shape_of embed_shape_of generate_offsets topo = Some dest"
  shows "is_poly (shape_of (el_shape (pt_elements dest)))"
proof (cases "is_poly (shape_of (el_shape (pt_elements topo)))")
  case True
  with assms(3) show ?thesis
    by (simp add: to_polygonal_poly)
next
  case False
  with assms(2,3) have "el_shape (pt_elements dest) = ''polygonal'' \<or>
                        el_shape (pt_elements dest) = ''polyhedral''"
    by (auto simp: to_polygonal_def Let_def keeps_shape_def split: if_splits prod.splits)
  with assms(1) show ?thesis
    by (auto simp: names_shapes_def is_poly_def)
qed

subsection \<open>Facts about fields on generated sides\<close>

lemma set_insert_sorted:
  assumes "sorted_wrt (<) xs"
  shows "sorted_wrt (<) (set_insert x xs) \<and> set (set_insert x xs) = insert x (set xs)"
  using assms by (induction xs) auto

lemma info_insert_represents:
  assumes "info_represents info R"
  shows "info_represents (info_insert key v info) (insert (key, v) R)"
proof -
  define s0 where "s0 = (case info key of None \<Rightarrow> [] | Some s \<Rightarrow> s)"
  from assms have s0: "sorted_wrt (<) s0 \<and> set s0 = R `` {key}"
    unfolding info_represents_def s0_def
    by (auto split: option.splits dest: spec [of _ key])
  have key: "insert (key, v) R `` {key} = insert v (R `` {key})"
    by auto
  have other: "insert (key, v) R `` {w} = R `` {w}" if "w \<noteq> key" for w
    using that by auto
  show ?thesis
    unfolding info_represents_def
  proof
    fix w
    show "case info_insert key v info w of
            None \<Rightarrow> insert (key, v) R `` {w} = {}
          | Some s \<Rightarrow> sorted_wrt (<) s \<and> set s = insert (key, v) R `` {w} \<and>
                       insert (key, v) R `` {w} \<noteq> {}"
    proof (cases "w = key")
      case True
      have "info_insert key v info key = Some (set_insert v s0)"
        by (simp add: info_insert_def s0_def)
      with set_insert_sorted [of s0 v] s0 True key show ?thesis
        by simp
    next
      case False
      then have same: "info_insert key v info w = info w"
        by (simp add: info_insert_def)
      from assms
      have "case info w of
              None \<Rightarrow> R `` {w} = {}
            | Some s \<Rightarrow> sorted_wrt (<) s \<and> set s = R `` {w} \<and> R `` {w} \<noteq> {}"
        unfolding info_represents_def by blast
      then show ?thesis
        unfolding same other [OF False] .
    qed
  qed
qed

lemma fold_info_insert_represents:
  assumes "info_represents info R"
  shows "info_represents
           (fold (\<lambda>x info. if c x then info_insert (f x) (g x) info else info) xs info)
           (R \<union> {(f x, g x) | x. x \<in> set xs \<and> c x})"
  using assms
proof (induction xs arbitrary: info R)
  case Nil
  then show ?case by simp
next
  case (Cons x xs)
  define R' where "R' = (if c x then insert (f x, g x) R else R)"
  have "info_represents (if c x then info_insert (f x) (g x) info else info) R'"
    using Cons.prems by (simp add: R'_def info_insert_represents)
  from Cons.IH [OF this]
  have "info_represents
          (fold (\<lambda>x info. if c x then info_insert (f x) (g x) info else info) (x # xs) info)
          (R' \<union> {(f y, g y) | y. y \<in> set xs \<and> c y})"
    by simp
  moreover have "R' \<union> {(f y, g y) | y. y \<in> set xs \<and> c y} =
                 R \<union> {(f y, g y) | y. y \<in> set (x # xs) \<and> c y}"
    unfolding R'_def by auto
  ultimately show ?case by simp
qed

lemma fold_concat_lists: "fold f (concat xss) = fold (\<lambda>xs. fold f xs) xss"
  by (induction xss) simp_all

lemma fold_keep: "fold (\<lambda>k info. info) ks info = info"
  by (induction ks) simp_all

lemma scan_group_flat:
  "scan_group iter conn orig i info =
     fold (\<lambda>p info. if orig \<le> conn ! fst p \<and> snd p \<noteq> fst p
                     then info_insert (conn ! fst p) (conn ! snd p) info else info)
       (List.product [i..<i + iter] [i..<i + iter]) info"
proof -
  have inner: "(\<lambda>j info. if orig \<le> conn ! j
                  then fold (\<lambda>k info. if k \<noteq> j then info_insert (conn ! j) (conn ! k) info
                                       else info) [i..<i + iter] info
                  else info) =
               (\<lambda>j. fold (\<lambda>k info. if orig \<le> conn ! j \<and> k \<noteq> j
                                     then info_insert (conn ! j) (conn ! k) info else info)
                       [i..<i + iter])"
    by (intro ext) (simp add: fold_keep)
  show ?thesis
    unfolding scan_group_def inner fold_product
    by (simp add: case_prod_unfold)
qed

lemma scan_connec_flat:
  "scan_connec iter conn orig =
     fold (\<lambda>p info. if orig \<le> conn ! fst p \<and> snd p \<noteq> fst p
                     then info_insert (conn ! fst p) (conn ! snd p) info else info)
       (concat (map (\<lambda>g. List.product [g * iter..<g * iter + iter] [g * iter..<g * iter + iter])
                  [0..<length conn div iter]))
       Map.empty"
proof -
  have step: "(\<lambda>g info. scan_group iter conn orig (g * iter) info) =
              (\<lambda>g. fold (\<lambda>p info. if orig \<le> conn ! fst p \<and> snd p \<noteq> fst p
                                   then info_insert (conn ! fst p) (conn ! snd p) info else info)
                      (List.product [g * iter..<g * iter + iter] [g * iter..<g * iter + iter]))"
    by (rule ext, rule ext, rule scan_group_flat)
  show ?thesis
    unfolding scan_connec_def step
    by (simp add: fold_concat_lists fold_map comp_def)
qed

lemma in_group_iff:
  fixes iter :: nat
  assumes "0 < iter"
  shows "g * iter \<le> j \<and> j < g * iter + iter \<longleftrightarrow> j div iter = g"
proof
  assume group: "g * iter \<le> j \<and> j < g * iter + iter"
  show "j div iter = g"
    by (rule div_nat_eqI) (use group in \<open>simp_all add: mult.commute\<close>)
next
  assume "j div iter = g"
  with assms dividend_less_div_times [of iter j] show "g * iter \<le> j \<and> j < g * iter + iter"
    by (auto simp: add.commute)
qed

lemma same_group_less:
  fixes iter :: nat
  assumes "0 < iter" and "j < m * iter" and "k div iter = j div iter"
  shows "k < m * iter"
proof -
  from assms(2) have "j div iter < m"
    by (rule less_mult_imp_div_less)
  with assms(3) have "k div iter < m"
    by simp
  with assms(1) show ?thesis
    by (simp add: div_less_iff_less_mult)
qed

lemma empty_represents: "info_represents Map.empty {}"
  by (simp add: info_represents_def)

lemma scan_connec_represents:
  assumes "0 < iter" and "length conn mod iter = 0"
  shows "info_represents (scan_connec iter conn orig)
           {(conn ! j, conn ! k) | j k. j < length conn \<and> k < length conn \<and>
              j div iter = k div iter \<and> orig \<le> conn ! j \<and> k \<noteq> j}"
proof -
  define m where "m = length conn div iter"
  from assms have len: "length conn = m * iter"
    unfolding m_def by (metis mult.commute mod_0_imp_dvd dvd_mult_div_cancel)
  define L where "L = concat (map (\<lambda>g. List.product [g * iter..<g * iter + iter]
                                         [g * iter..<g * iter + iter]) [0..<m])"
  have L: "p \<in> set L \<longleftrightarrow> fst p < length conn \<and> snd p < length conn \<and>
             fst p div iter = snd p div iter" for p
  proof -
    have "p \<in> set L \<longleftrightarrow> (\<exists>g<m. (g * iter \<le> fst p \<and> fst p < g * iter + iter) \<and>
                                 (g * iter \<le> snd p \<and> snd p < g * iter + iter))"
      unfolding L_def by (cases p) auto
    also have "\<dots> \<longleftrightarrow> (\<exists>g<m. fst p div iter = g \<and> snd p div iter = g)"
      unfolding in_group_iff [OF assms(1)] ..
    also have "\<dots> \<longleftrightarrow> fst p div iter < m \<and> snd p div iter = fst p div iter"
      by auto
    also have "\<dots> \<longleftrightarrow> fst p < m * iter \<and> snd p div iter = fst p div iter"
      unfolding div_less_iff_less_mult [OF assms(1)] ..
    also have "\<dots> \<longleftrightarrow> fst p < length conn \<and> snd p < length conn \<and>
                       fst p div iter = snd p div iter"
      using same_group_less [OF assms(1), of "fst p" m "snd p"] unfolding len
      by auto
    finally show ?thesis .
  qed
  have "info_represents (scan_connec iter conn orig)
          ({} \<union> {(conn ! fst p, conn ! snd p) | p. p \<in> set L \<and>
                    (orig \<le> conn ! fst p \<and> snd p \<noteq> fst p)})"
    unfolding scan_connec_flat L_def m_def
    by (rule fold_info_insert_represents [OF empty_represents])
  moreover have "{} \<union> {(conn ! fst p, conn ! snd p) | p. p \<in> set L \<and>
                    (orig \<le> conn ! fst p \<and> snd p \<noteq> fst p)} =
                 {(conn ! j, conn ! k) | j k. j < length conn \<and> k < length conn \<and>
                    j div iter = k div iter \<and> orig \<le> conn ! j \<and> k \<noteq> j}"
    unfolding L by auto
  ultimately show ?thesis by simp
qed

lemma set_adjacent:
  assumes "0 < iter" and "length conn mod iter = 0"
  shows "set (adjacent iter conn v) =
           {conn ! k | j k. j < length conn \<and> k < length conn \<and> j div iter = k div iter \<and>
              conn ! j = v \<and> k \<noteq> j}"
proof -
  define m where "m = length conn div iter"
  from assms have len: "length conn = m * iter"
    unfolding m_def by (metis mult.commute mod_0_imp_dvd dvd_mult_div_cancel)
  have grp: "(j div iter * iter \<le> k \<and> k < j div iter * iter + iter) \<longleftrightarrow>
             (k < length conn \<and> j div iter = k div iter)" if "j < length conn" for j k
  proof -
    from that have "k < length conn" if "k div iter = j div iter"
      using that same_group_less [OF assms(1), of j m k] unfolding len by simp
    then show ?thesis
      unfolding in_group_iff [OF assms(1)] by auto
  qed
  have "set (adjacent iter conn v) =
          {conn ! k | j k. j < length conn \<and> conn ! j = v \<and>
             (j div iter * iter \<le> k \<and> k < j div iter * iter + iter) \<and> k \<noteq> j}"
    unfolding adjacent_def by auto (blast, force)
  also have "\<dots> = {conn ! k | j k. j < length conn \<and> k < length conn \<and>
                      j div iter = k div iter \<and> conn ! j = v \<and> k \<noteq> j}"
    using grp by blast
  finally show ?thesis .
qed

lemma scan_connec_entry:
  assumes "0 < iter" and "length conn mod iter = 0" and "orig \<le> v"
  shows "case scan_connec iter conn orig v of
           None \<Rightarrow> adjacent iter conn v = []
         | Some s \<Rightarrow> sorted_wrt (<) s \<and> set s = set (adjacent iter conn v) \<and>
                      adjacent iter conn v \<noteq> []"
proof -
  define R where "R = {(conn ! j, conn ! k) | j k. j < length conn \<and> k < length conn \<and>
                         j div iter = k div iter \<and> orig \<le> conn ! j \<and> k \<noteq> j}"
  have "R `` {v} = set (adjacent iter conn v)"
    unfolding R_def set_adjacent [OF assms(1,2)] using assms(3) by auto
  moreover have "case scan_connec iter conn orig v of
           None \<Rightarrow> R `` {v} = {}
         | Some s \<Rightarrow> sorted_wrt (<) s \<and> set s = R `` {v} \<and> R `` {v} \<noteq> {}"
    using scan_connec_represents [OF assms(1,2), of orig]
    unfolding info_represents_def R_def by blast
  ultimately show ?thesis
    by (simp split: option.splits)
qed

lemma neighbor_fold:
  "fold (\<lambda>it (sum_v, num_neighbors).
           if it < orig then (sum_v + vals ! it, num_neighbors + 1) else (sum_v, num_neighbors))
     s (a, b) =
   (foldl (+) a (map ((!) vals) (filter (\<lambda>u. u < orig) s)),
    foldl (\<lambda>c v. c + 1) b (map ((!) vals) (filter (\<lambda>u. u < orig) s)))"
  by (induction s arbitrary: a b) simp_all

lemma neighbor_mean_eq:
  "neighbor_mean orig vals s = mean (map ((!) vals) (filter (\<lambda>u. u < orig) s))"
  unfolding neighbor_mean_def neighbor_fold mean_def by simp

lemma filter_entry:
  assumes "sorted_wrt (<) s" and "set s = set xs"
  shows "filter P s = sort (remdups (filter P xs))"
proof -
  have "sorted_wrt (<) (sort (remdups (filter P xs)))"
    by (simp add: strict_sorted_iff)
  moreover from assms(1) have "sorted_wrt (<) (filter P s)"
    by (rule sorted_wrt_filter)
  moreover have "set (filter P s) = set (sort (remdups (filter P xs)))"
    using assms(2) by simp
  ultimately show ?thesis
    by (rule strict_sorted_equal)
qed

lemma new_points_loop:
  assumes dep: "\<And>i vals. \<forall>u<orig. vals ! u = V ! u \<Longrightarrow> H i vals = G i"
  shows "fold (\<lambda>i vals. vals[i := H i vals]) [orig..<orig + m] V =
         fold (\<lambda>i vals. vals[i := G i]) [orig..<orig + m] V"
proof (induction m)
  case 0
  show ?case by simp
next
  case (Suc m)
  define W where "W = fold (\<lambda>i vals. vals[i := G i]) [orig..<orig + m] V"
  have "\<forall>u<orig. W ! u = V ! u"
    unfolding W_def by (auto intro!: fold_update_nth_other [where f = "\<lambda>i. i"])
  then have "H (orig + m) W = G (orig + m)"
    by (rule dep)
  with Suc show ?case
    by (simp add: W_def)
qed

lemma sides_original_neighbors:
  assumes "0 < iter" and "length conn mod iter = 0"
    and "sides_have_original iter conn orig"
    and "orig \<le> v" and "adjacent iter conn v \<noteq> []"
  shows "original_neighbors iter conn orig v \<noteq> []"
proof -
  define m where "m = length conn div iter"
  from assms(1,2) have len: "length conn = m * iter"
    unfolding m_def by (metis mult.commute mod_0_imp_dvd dvd_mult_div_cancel)
  from assms(5) have "set (adjacent iter conn v) \<noteq> {}"
    by simp
  then obtain j where j: "j < length conn" "conn ! j = v"
    unfolding set_adjacent [OF assms(1,2)] by blast
  define g where "g = j div iter"
  from j(1) have g: "g < m"
    unfolding g_def len by (rule less_mult_imp_div_less)
  with assms(3) have "\<exists>k<iter. conn ! (g * iter + k) < orig"
    unfolding sides_have_original_def m_def [symmetric] list_all_iff list_ex_iff by fastforce
  then obtain k where k: "k < iter" "conn ! (g * iter + k) < orig"
    by blast
  define k' where "k' = g * iter + k"
  have grp: "k' div iter = g"
    unfolding k'_def using k(1) by simp
  then have "k' div iter = j div iter"
    by (simp add: g_def)
  with assms(1) j(1) have "k' < length conn"
    unfolding len by (intro same_group_less [of iter j m k']) simp_all
  moreover have "k' \<noteq> j"
    using k(2) j(2) assms(4) unfolding k'_def by auto
  ultimately have "\<exists>ja k. conn ! k' = conn ! k \<and> ja < length conn \<and> k < length conn \<and>
                     ja div iter = k div iter \<and> conn ! ja = v \<and> k \<noteq> ja"
    using j grp by (intro exI [of _ j] exI [of _ k']) (simp add: g_def)
  then have "conn ! k' \<in> set (adjacent iter conn v)"
    unfolding set_adjacent [OF assms(1,2)] by simp
  with k(2) have "conn ! k' \<in> set (original_neighbors iter conn orig v)"
    unfolding original_neighbors_def k'_def by simp
  then show ?thesis
    by auto
qed

lemma vertex_associated_field_values:
  fixes conv :: "'v \<Rightarrow> 'f::{zero,one,plus,inverse}"
  assumes iter: "iter = (if dimensions = 2 then 3 else 4)"
    and bounds: "orig \<le> length poly_field_data" "orig \<le> length values_array"
      "new \<le> length values_array"
    and groups: "length conn mod iter = 0"
  shows "\<exists>out. vertex_associated_field conv conn poly_field_data orig new dimensions values_array
                  = Some out \<and>
           length out = length values_array \<and>
           (\<forall>i<orig. out ! i = conv (poly_field_data ! i)) \<and>
           (\<forall>i. orig \<le> i \<and> i < new \<longrightarrow>
              out ! i = (if adjacent iter conn i = [] then 0
                         else mean (map (\<lambda>u. conv (poly_field_data ! u))
                                      (original_neighbors iter conn orig i))))"
proof -
  have pos: "0 < iter"
    using iter by simp
  define V where "V = fold (\<lambda>i values_array. values_array[i := conv (poly_field_data ! i)])
                        [0..<orig] values_array"
  define info where "info = scan_connec iter conn orig"
  define G where "G = (\<lambda>i. case info i of
                              Some neighbors \<Rightarrow>
                                mean (map ((!) V) (filter (\<lambda>u. u < orig) neighbors))
                            | None \<Rightarrow> 0)"
  define out where "out = fold (\<lambda>i vals. vals[i := G i]) [orig..<new] V"
  have lenV: "length V = length values_array"
    unfolding V_def by simp
  have V: "V ! i = conv (poly_field_data ! i)" if "i < orig" for i
    unfolding V_def using that bounds(2)
    by (intro fold_update_nth [where x = i]) simp_all
  have loop: "(\<lambda>i values_array.
                 case info i of
                   Some neighbors \<Rightarrow>
                     values_array[i := neighbor_mean orig values_array neighbors]
                 | None \<Rightarrow> values_array[i := 0]) =
              (\<lambda>i vals. vals[i := (case info i of
                                       Some neighbors \<Rightarrow> neighbor_mean orig vals neighbors
                                     | None \<Rightarrow> 0)])"
    by (intro ext) (simp split: option.splits)
  have upt: "[orig..<new] = [orig..<orig + (new - orig)]"
    by (cases "orig \<le> new") simp_all
  have dep: "(case info i of Some neighbors \<Rightarrow> neighbor_mean orig vals neighbors
              | None \<Rightarrow> 0) = G i" if "\<forall>u<orig. vals ! u = V ! u" for i vals
    unfolding G_def neighbor_mean_eq using that
    by (auto split: option.splits intro!: arg_cong [where f = mean])
  have fold_eq: "fold (\<lambda>i vals. vals[i := (case info i of
                                                  Some neighbors \<Rightarrow>
                                                    neighbor_mean orig vals neighbors
                                                | None \<Rightarrow> 0)]) [orig..<new] V = out"
    unfolding out_def upt by (rule new_points_loop) (rule dep)
  have run: "vertex_associated_field conv conn poly_field_data orig new dimensions values_array
               = Some out"
    unfolding vertex_associated_field_def iter [symmetric] Let_def V_def [symmetric]
      info_def [symmetric] loop fold_eq
    using bounds groups by simp
  have lenout: "length out = length values_array"
    unfolding out_def by (simp add: lenV)
  have orig_vals: "out ! i = conv (poly_field_data ! i)" if "i < orig" for i
  proof -
    have "out ! i = V ! i"
      unfolding out_def using that
      by (intro fold_update_nth_other [where f = "\<lambda>i. i"]) simp
    with V [OF that] show ?thesis by simp
  qed
  have new_vals: "out ! i = (if adjacent iter conn i = [] then 0
                             else mean (map (\<lambda>u. conv (poly_field_data ! u))
                                          (original_neighbors iter conn orig i)))"
    if "orig \<le> i" "i < new" for i
  proof -
    have "out ! i = G i"
      unfolding out_def using that bounds(3) lenV
      by (intro fold_update_nth [where x = i]) simp_all
    moreover have "G i = (if adjacent iter conn i = [] then 0
                          else mean (map (\<lambda>u. conv (poly_field_data ! u))
                                       (original_neighbors iter conn orig i)))"
    proof (cases "info i")
      case None
      with scan_connec_entry [OF pos groups that(1)] show ?thesis
        by (simp add: G_def info_def)
    next
      case (Some s)
      with scan_connec_entry [OF pos groups that(1)]
      have s: "sorted_wrt (<) s" "set s = set (adjacent iter conn i)"
        "adjacent iter conn i \<noteq> []"
        by (simp_all add: info_def)
      have entry: "filter (\<lambda>u. u < orig) s = original_neighbors iter conn orig i"
        unfolding original_neighbors_def by (rule filter_entry [OF s(1,2)])
      have vals: "map ((!) V) (original_neighbors iter conn orig i) =
                  map (\<lambda>u. conv (poly_field_data ! u)) (original_neighbors iter conn orig i)"
        by (rule map_cong) (simp_all add: original_neighbors_def V)
      have "G i = mean (map ((!) V) (filter (\<lambda>u. u < orig) s))"
        by (simp add: G_def Some)
      also have "\<dots> = mean (map (\<lambda>u. conv (poly_field_data ! u))
                           (original_neighbors iter conn orig i))"
        by (simp only: entry vals)
      finally show ?thesis
        using s(3) by simp
    qed
    ultimately show ?thesis by simp
  qed
  from run lenout orig_vals new_vals show ?thesis
    by blast
qed

lemma ex_sides_field:
  "vertex_associated_field (\<lambda>x. x) ex_sides ex_field 3 5 2 (replicate 5 0) =
     Some [3, 6, 9, 6, 0]"
  by code_simp

lemma ex_sides_original: "sides_have_original 3 ex_sides 3"
  by code_simp

subsection \<open>The width assertions never fire\<close>

text \<open>
  C8. The conditions of the two \<^verbatim>\<open>static_assert\<close>s are true for every integer value of the
  width macros, so no width is rejected at compile time: not 32, not 64, and no other
  width either (16 is the example).
\<close>

theorem width_assertions_tautology:
  "idx_width_assertion w \<and> real_width_assertion w'"
  unfolding idx_width_assertion_def real_width_assertion_def by presburger

theorem width_assertions_tautology_witness:
  "idx_width_assertion 16 \<and> real_width_assertion 16 \<and> (16::int) \<noteq> 32 \<and> (16::int) \<noteq> 64"
  using width_assertions_tautology [of 16 16] by simp

subsection \<open>join\_file\_path reads out of range\<close>

text \<open>
  C9 says that every subscript that \<^verbatim>\<open>join_file_path\<close> evaluates is below the size of the
  string. The code evaluates \<^verbatim>\<open>res[-1]\<close> for every non-empty \<open>left\<close>: the position is
  \<open>2^64 - 1\<close>. At \<open>left = "a"\<close> the size is 1.
\<close>

theorem join_file_path_subscript_out_of_range:
  "\<forall>sep. join_file_path sep ''a'' ''b'' = Inl (Subscript_out_of_range 18446744073709551615 1)"
  by (simp add: join_file_path_def string_subscript_def size_t_minus_one)

subsection \<open>Protocol dispatch\<close>

text \<open>
  C6. For a protocol name outside the closed set of the fifteen names, the result of
  \<^verbatim>\<open>mesh::verify(protocol, n, info)\<close> is false whatever the node is; for a name of the set,
  the result is that of the verifier of that sub-protocol.
\<close>

theorem mesh_verify_protocol_dispatch:
  "(p \<notin> set blueprint_protocols \<longrightarrow> mesh_verify_protocol vs p n = False) \<and>
   mesh_verify_protocol vs ''coordset'' n = coordset_verify vs n \<and>
   mesh_verify_protocol vs ''topology'' n = topology_verify vs n \<and>
   mesh_verify_protocol vs ''matset'' n = matset_verify vs n \<and>
   mesh_verify_protocol vs ''specset'' n = specset_verify vs n \<and>
   mesh_verify_protocol vs ''field'' n = field_verify vs n \<and>
   mesh_verify_protocol vs ''adjset'' n = adjset_verify vs n \<and>
   mesh_verify_protocol vs ''nestset'' n = nestset_verify vs n \<and>
   mesh_verify_protocol vs ''index'' n = index_verify vs n \<and>
   mesh_verify_protocol vs ''coordset/index'' n = coordset_index_verify vs n \<and>
   mesh_verify_protocol vs ''topology/index'' n = topology_index_verify vs n \<and>
   mesh_verify_protocol vs ''matset/index'' n = matset_index_verify vs n \<and>
   mesh_verify_protocol vs ''specset/index'' n = specset_index_verify vs n \<and>
   mesh_verify_protocol vs ''field/index'' n = field_index_verify vs n \<and>
   mesh_verify_protocol vs ''adjset/index'' n = adjset_index_verify vs n \<and>
   mesh_verify_protocol vs ''nestset/index'' n = nestset_index_verify vs n"
  by (simp add: mesh_verify_protocol_def blueprint_protocols_def)

theorem mesh_verify_protocol_dispatch_witness:
  "''mesh'' \<notin> set blueprint_protocols \<and> mesh_verify_protocol accept_all ''mesh'' () = False \<and>
   mesh_verify_protocol accept_all ''field/index'' () = True"
  using mesh_verify_protocol_dispatch [of "''mesh''" accept_all "()"]
  by (simp add: blueprint_protocols_def accept_all_def)

subsection \<open>The empty mesh\<close>

text \<open>
  C5. \<^verbatim>\<open>mesh::verify(n, info)\<close> returns true for the empty node. More generally a node with
  no child "coordsets" gets the result of \<^verbatim>\<open>verify_multi_domain\<close>, which accepts an empty node
  and an object or a list with no children, whatever the verifier of a single domain says.
\<close>

theorem mesh_verify_empty:
  "mesh_verify vsd Empty_node = True \<and>
   (\<not> has_child n ''coordsets'' \<longrightarrow> mesh_verify vsd n = verify_multi_domain vsd n) \<and>
   ((is_object n \<or> is_list n \<or> is_empty n) \<and> (is_empty n \<or> number_of_children n = 0)
      \<longrightarrow> verify_multi_domain vsd n = True)"
  by (auto simp: mesh_verify_def verify_multi_domain_def)

theorem mesh_verify_empty_witness:
  "\<not> has_child (Object_node []) ''coordsets'' \<and> is_object (Object_node []) \<and>
   number_of_children (Object_node []) = 0 \<and>
   mesh_verify (\<lambda>n. False) (Object_node [] :: unit node) = True \<and>
   mesh_verify (\<lambda>n. False) (Empty_node :: unit node) = True"
  using mesh_verify_empty [of "\<lambda>n. False" "Object_node [] :: unit node"]
  by (simp add: number_of_children_def)

subsection \<open>Uniform and rectilinear coordsets to explicit\<close>

text \<open>
  C2. For a uniform or a rectilinear coordset whose axes are all present, the conversion
  to an explicit coordset returns, for each axis of the coordinate system and under its
  name, an array whose length is the product of the vertex counts of the axes (the entries
  of \<open>dims\<close> for the uniform coordset, the numbers of values of the axes for the
  rectilinear one). Entry \<open>k\<close>
  of the array of axis \<open>a\<close> is the coordinate on axis \<open>a\<close> of the \<open>k\<close>-th point of the grid in
  column-major order (first axis fastest): \<open>origin + ijk * spacing\<close> for the uniform
  coordset, origin 0 and spacing 1 when absent, and the \<open>ijk\<close>-th value of the axis for the
  rectilinear one, where \<open>ijk = grid_coord lens a k\<close>. The value is converted to the float
  type of the destination.
\<close>

theorem coordset_to_explicit_cartesian_product:
  assumes "base_type = ''uniform'' \<or> base_type = ''rectilinear''"
    and "length csys_axes \<le> 3"
    and "axes_present (base_type = ''rectilinear'') csys_axes coordset"
  shows "\<exists>dest.
           convert_coordset_to_explicit of_index cast base_type csys_axes coordset = Some dest \<and>
           ec_type dest = ''explicit'' \<and>
           map fst (ec_values dest) = csys_axes \<and>
           (\<forall>a<length csys_axes.
              length (snd (ec_values dest ! a))
                = prod_list (axis_lens (base_type = ''rectilinear'') csys_axes coordset) \<and>
              (\<forall>k<prod_list (axis_lens (base_type = ''rectilinear'') csys_axes coordset).
                 snd (ec_values dest ! a) ! k
                   = cast (axis_coordinate of_index (base_type = ''rectilinear'') coordset
                             (csys_axes ! a)
                             (grid_coord
                                (axis_lens (base_type = ''rectilinear'') csys_axes coordset)
                                a k))))"
proof -
  let ?rect = "base_type = ''rectilinear''"
  let ?n = "length csys_axes"
  let ?lens = "axis_lens ?rect csys_axes coordset"
  let ?len = "prod_list ?lens"
  let ?av = "axis_values of_index cast ?rect csys_axes coordset ?lens ?len"
  have llen: "length ?lens = ?n"
    by (simp add: axis_lens_def)
  have count: "dim_len ?rect csys_axes coordset a = Some (?lens ! a)" if "a < ?n" for a
    using assms(3) that assms(2) by (rule axes_present_fetches(1))
  have present: "dim_len ?rect csys_axes coordset a \<noteq> None"
       "src_cvals coordset (csys_axes ! a) \<noteq> None"
       "dim_origin coordset (csys_axes ! a) \<noteq> None"
       "dim_spacing coordset (csys_axes ! a) \<noteq> None" if "a < ?n" for a
    using axes_present_fetches [OF assms(3) that assms(2)] by simp_all
  have "those (map (dim_len ?rect csys_axes coordset) [0..<?n])
          = Some (map (\<lambda>a. the (dim_len ?rect csys_axes coordset a)) [0..<?n])"
    by (rule those_map_the) (simp add: present)
  also have "map (\<lambda>a. the (dim_len ?rect csys_axes coordset a)) [0..<?n] = ?lens"
    by (rule nth_equalityI) (simp_all add: llen count)
  finally have lens: "those (map (dim_len ?rect csys_axes coordset) [0..<?n]) = Some ?lens" .
  have clen: "fold (\<lambda>i c. c * ?lens ! i) [0..<?n] 1 = ?len"
    using fold_mult_prod_take [of ?n ?lens] llen by simp
  have ax: "\<exists>vs. ?av a = Some (csys_axes ! a, vs) \<and> length vs = ?len \<and>
              (\<forall>k<?len. vs ! k = cast (axis_coordinate of_index ?rect coordset (csys_axes ! a)
                                         (grid_coord ?lens a k)))"
    if "a < ?n" for a
    using that present llen by (intro axis_values_Some) simp_all
  then have "\<forall>a\<in>set [0..<?n]. ?av a \<noteq> None"
    by fastforce
  then have vals: "those (map ?av [0..<?n]) = Some (map (\<lambda>a. the (?av a)) [0..<?n])"
    by (rule those_map_the)
  let ?dest = "\<lparr>ec_type = ''explicit'', ec_values = map (\<lambda>a. the (?av a)) [0..<?n]\<rparr>"
  have guard: "\<not> ((\<not> base_type = ''rectilinear'' \<and> \<not> base_type = ''uniform'') \<or>
                  3 < length csys_axes)"
    using assms(1,2) by auto
  have conv: "convert_coordset_to_explicit of_index cast base_type csys_axes coordset = Some ?dest"
    by (simp only: convert_coordset_to_explicit_def Let_def guard if_False lens clen vals
        option.case)
  have names: "map fst (ec_values ?dest) = csys_axes"
  proof (rule nth_equalityI)
    show "length (map fst (ec_values ?dest)) = length csys_axes" by simp
  next
    fix a assume "a < length (map fst (ec_values ?dest))"
    then have "a < ?n" by simp
    with ax [of a] show "map fst (ec_values ?dest) ! a = csys_axes ! a" by auto
  qed
  have "length (snd (ec_values ?dest ! a)) = ?len \<and>
        (\<forall>k<?len. snd (ec_values ?dest ! a) ! k
            = cast (axis_coordinate of_index ?rect coordset (csys_axes ! a)
                      (grid_coord ?lens a k)))" if "a < ?n" for a
    using ax [OF that] that by auto
  with conv names show ?thesis
    by (intro exI [of _ ?dest]) simp
qed

text \<open>
  The scenario of the specification: dims \<open>{i: 3, j: 2}\<close>, origin \<open>{x: 0, y: 0}\<close>, spacing
  \<open>{dx: 1, dy: 2}\<close> give \<open>values/x = [0, 1, 2, 0, 1, 2]\<close> and \<open>values/y = [0, 0, 0, 2, 2, 2]\<close>.
  And a rectilinear coordset: the values 0, 1, 3 along \<open>x\<close> and 0, 5 along \<open>y\<close> give
  \<open>values/x = [0, 1, 3, 0, 1, 3]\<close> and \<open>values/y = [0, 0, 0, 5, 5, 5]\<close>.
\<close>

theorem coordset_to_explicit_cartesian_product_witness:
  "axes_present False [''x'', ''y''] ex_uniform \<and>
   axis_lens False [''x'', ''y''] ex_uniform = [3, 2] \<and>
   uniform_to_explicit of_nat id [''x'', ''y''] ex_uniform =
     Some \<lparr>ec_type = ''explicit'',
           ec_values = [(''x'', [0, 1, 2, 0, 1, 2]), (''y'', [0, 0, 0, 2, 2, 2 :: rat])]\<rparr> \<and>
   axes_present True [''x'', ''y''] ex_rectilinear \<and>
   axis_lens True [''x'', ''y''] ex_rectilinear = [3, 2] \<and>
   rectilinear_to_explicit of_nat id [''x'', ''y''] ex_rectilinear =
     Some \<lparr>ec_type = ''explicit'',
           ec_values = [(''x'', [0, 1, 3, 0, 1, 3]), (''y'', [0, 0, 0, 5, 5, 5 :: rat])]\<rparr>"
proof -
  have uniform: "axes_present (''uniform'' = ''rectilinear'') [''x'', ''y''] ex_uniform"
    by (simp add: axes_present_def child_present_def ex_uniform_def upt_rec [of _ "numeral _"]
        upt_rec [of _ "Suc _"] eval_nat_numeral)
  have rectilinear:
    "axes_present (''rectilinear'' = ''rectilinear'') [''x'', ''y''] ex_rectilinear"
    by (simp add: axes_present_def child_present_def ex_rectilinear_def
        upt_rec [of _ "numeral _"] upt_rec [of _ "Suc _"] eval_nat_numeral)
  have ulens: "axis_lens False [''x'', ''y''] ex_uniform = [3, 2]"
    by (simp add: axis_lens_def uniform_count_def ex_uniform_def upt_rec [of _ "numeral _"]
        upt_rec [of _ "Suc _"] eval_nat_numeral)
  have rlens: "axis_lens True [''x'', ''y''] ex_rectilinear = [3, 2]"
    by (simp add: axis_lens_def rectilinear_count_def ex_rectilinear_def
        upt_rec [of _ "numeral _"] upt_rec [of _ "Suc _"] eval_nat_numeral)
  have "\<exists>dest. convert_coordset_to_explicit of_nat id ''uniform'' [''x'', ''y''] ex_uniform
                  = Some (dest :: rat explicit_coordset)"
    using coordset_to_explicit_cartesian_product
            [of "''uniform''" "[''x'', ''y'']" ex_uniform of_nat id, OF _ _ uniform]
    by auto
  moreover
  have "\<exists>dest. convert_coordset_to_explicit of_nat id ''rectilinear'' [''x'', ''y''] ex_rectilinear
                  = Some (dest :: rat explicit_coordset)"
    using coordset_to_explicit_cartesian_product
            [of "''rectilinear''" "[''x'', ''y'']" ex_rectilinear of_nat id, OF _ _ rectilinear]
    by auto
  ultimately show ?thesis
    using uniform rectilinear ulens rlens
    by (simp add: uniform_to_explicit_def rectilinear_to_explicit_def ex_uniform_explicit
        ex_rectilinear_explicit)
qed

subsection \<open>Structured topologies to unstructured\<close>

text \<open>
  C1. For a structured topology over a grid with two or three axes, whose dimensions
  \<open>elements/dims\<close> are present, the conversion to unstructured returns a topology of shape
  "quad" (two axes) or "hex" (three axes) with one element of \<open>2^d\<close> vertex ids per grid
  cell. Entry \<open>i\<close> of the element of cell \<open>e\<close> is the vertex of the cell that the bit
  pattern of \<open>swap_last_two i\<close> points to, each bit a step of one along its axis: the
  enumeration by bit patterns, with the last two vertices of each group of four exchanged.
\<close>

theorem structured_to_unstructured_connectivity:
  assumes "length csys_axes = 2 \<or> length csys_axes = 3"
    and "list_all (\<lambda>a. fetch (topo_dims topo) (LOGICAL_AXES ! a) \<noteq> None) [0..<length csys_axes]"
  shows "\<exists>dest. structured_to_unstructured csys_axes cdest_name topo coordset = Some dest \<and>
           ut_type dest = ''unstructured'' \<and>
           ut_shape dest = (if length csys_axes = 2 then ''quad'' else ''hex'') \<and>
           length (ut_connectivity dest)
             = prod_list (structured_edims csys_axes topo) * 2 ^ length csys_axes \<and>
           (\<forall>e<prod_list (structured_edims csys_axes topo). \<forall>i<2 ^ length csys_axes.
              ut_connectivity dest ! (e * 2 ^ length csys_axes + i)
                = cell_vertex (structured_edims csys_axes topo) e (swap_last_two i))"
proof -
  let ?n = "length csys_axes"
  obtain a b c where abc: "structured_edims csys_axes topo = [a, b, c]"
    by (simp add: structured_edims_def small_numerals)
  have "\<forall>x\<in>set [0..<?n]. edims_axis ''structured'' csys_axes topo coordset x \<noteq> None"
    using assms(2) by (simp add: edims_axis_def list_all_iff)
  then have ds: "those (map (edims_axis ''structured'' csys_axes topo coordset) [0..<?n])
                   = Some (map (\<lambda>a. case edims_axis ''structured'' csys_axes topo coordset a of
                                      None \<Rightarrow> 0 | Some v \<Rightarrow> v) [0..<?n])"
    by (rule those_map_default)
  from connectivity_cells [OF assms(1), of a b c] obtain conn where
    conn: "connectivity ?n [a, b, c] = Some conn"
    and len: "length conn = a * b * c * 2 ^ ?n"
    and cells: "\<forall>e<a * b * c. \<forall>i<2 ^ ?n.
                  conn ! (e * 2 ^ ?n + i) = cell_vertex [a, b, c] e (swap_last_two i)"
    by blast
  have small: "\<not> 3 < ?n" using assms(1) by auto
  have "structured_to_unstructured csys_axes cdest_name topo coordset =
          Some \<lparr>ut_type = ''unstructured'', ut_coordset = cdest_name,
                ut_origin = topo_origin topo,
                ut_shape = (if ?n = 1 then ''line'' else if ?n = 2 then ''quad''
                            else if ?n = 3 then ''hex'' else []),
                ut_connectivity = conn\<rparr>"
    by (simp only: structured_to_unstructured_def convert_topology_to_unstructured_def small
        if_False ds option.case Let_def structured_edims_list [OF assms(1)] abc conn)
  moreover have "(if ?n = 1 then ''line'' else if ?n = 2 then ''quad''
                  else if ?n = 3 then ''hex'' else [])
                 = (if ?n = 2 then ''quad'' else ''hex'')"
    using assms(1) by auto
  ultimately show ?thesis
    using len cells by (simp add: abc)
qed

text \<open>
  The scenario of the specification: 2 by 2 elements over 3 by 3 vertices give the shape
  "quad" and the connectivity \<open>[0,1,4,3, 1,2,5,4, 3,4,7,6, 4,5,8,7]\<close>.
\<close>

theorem structured_to_unstructured_connectivity_witness:
  "list_all (\<lambda>a. fetch (topo_dims ex_grid) (LOGICAL_AXES ! a) \<noteq> None) [0..<length [''x'', ''y'']] \<and>
   structured_to_unstructured [''x'', ''y''] ''coords'' ex_grid ex_coords =
     Some \<lparr>ut_type = ''unstructured'', ut_coordset = ''coords'', ut_origin = None,
           ut_shape = ''quad'',
           ut_connectivity = [0, 1, 4, 3, 1, 2, 5, 4, 3, 4, 7, 6, 4, 5, 8, 7]\<rparr>"
proof -
  have dims: "list_all (\<lambda>a. fetch (topo_dims ex_grid) (LOGICAL_AXES ! a) \<noteq> None)
                [0..<length [''x'', ''y'']]"
    by (simp add: ex_grid_def fetch_def LOGICAL_AXES_def upt_rec [of _ "numeral _"]
        upt_rec [of _ "Suc _"] eval_nat_numeral)
  have "\<exists>dest. structured_to_unstructured [''x'', ''y''] ''coords'' ex_grid ex_coords = Some dest"
    using structured_to_unstructured_connectivity
            [of "[''x'', ''y'']" ex_grid "''coords''" ex_coords, OF _ dims]
    by auto
  with dims show ?thesis
    by (simp add: ex_grid_connectivity)
qed

subsection \<open>Polygonal and polyhedral topologies are copied\<close>

text \<open>
  C10. For a topology whose shape is already polygonal or polyhedral, \<^verbatim>\<open>to_polygonal\<close> and
  its alias \<^verbatim>\<open>to_polytopal\<close> return the input topology itself. Hence \<^verbatim>\<open>to_polygonal\<close> is
  idempotent: applied to its own result it returns that result, for every topology (when
  the first application fails, so does the sequence of two). The shape lookup keeps the
  two names and the offsets helper leaves the shape as it is.
\<close>

theorem to_polygonal_idempotent:
  assumes "names_shapes shape_of" and "keeps_shape generate_offsets"
  shows "(is_poly (shape_of (el_shape (pt_elements topo))) \<longrightarrow>
            to_polygonal shape_of embed_shape_of generate_offsets topo = Some topo \<and>
            to_polytopal shape_of embed_shape_of generate_offsets topo = Some topo) \<and>
         Option.bind (to_polygonal shape_of embed_shape_of generate_offsets topo)
           (to_polygonal shape_of embed_shape_of generate_offsets)
           = to_polygonal shape_of embed_shape_of generate_offsets topo"
proof (intro conjI impI)
  assume "is_poly (shape_of (el_shape (pt_elements topo)))"
  then show "to_polygonal shape_of embed_shape_of generate_offsets topo = Some topo"
    and "to_polytopal shape_of embed_shape_of generate_offsets topo = Some topo"
    by (simp_all add: to_polytopal_def to_polygonal_poly)
next
  show "Option.bind (to_polygonal shape_of embed_shape_of generate_offsets topo)
          (to_polygonal shape_of embed_shape_of generate_offsets)
          = to_polygonal shape_of embed_shape_of generate_offsets topo"
  proof (cases "to_polygonal shape_of embed_shape_of generate_offsets topo")
    case None
    then show ?thesis by simp
  next
    case (Some dest)
    with assms have "is_poly (shape_of (el_shape (pt_elements dest)))"
      by (rule to_polygonal_result_poly)
    then have "to_polygonal shape_of embed_shape_of generate_offsets dest = Some dest"
      by (rule to_polygonal_poly)
    with Some show ?thesis by simp
  qed
qed

lemma ex_tets_polyhedral:
  "to_polygonal ex_shape_of ex_embed_shape_of ex_generate_offsets ex_tets =
     Some \<lparr>pt_other = (),
           pt_elements =
             \<lparr>el_shape = ''polyhedral'', el_connectivity = [0, 1, 2, 3, 3, 4, 5, 6],
              el_sizes = Some [4, 4], el_offsets = Some [0, 4]\<rparr>,
           pt_subelements = Some
             \<lparr>el_shape = ''polygonal'',
              el_connectivity = [0, 2, 1, 0, 1, 3, 0, 3, 2, 1, 2, 3, 1, 2, 4, 1, 4, 3, 2, 3, 4],
              el_sizes = Some [3, 3, 3, 3, 3, 3, 3],
              el_offsets = Some [0, 3, 6, 9, 12, 15, 18]\<rparr>\<rparr>"
  by code_simp

theorem to_polygonal_idempotent_witness:
  "names_shapes ex_shape_of \<and> keeps_shape ex_generate_offsets \<and>
   is_poly (ex_shape_of (el_shape (pt_elements ex_polygons))) \<and>
   to_polygonal ex_shape_of ex_embed_shape_of ex_generate_offsets ex_polygons = Some ex_polygons \<and>
   to_polytopal ex_shape_of ex_embed_shape_of ex_generate_offsets ex_polygons = Some ex_polygons \<and>
   to_polygonal ex_shape_of ex_embed_shape_of ex_generate_offsets ex_tets \<noteq> None \<and>
   Option.bind (to_polygonal ex_shape_of ex_embed_shape_of ex_generate_offsets ex_tets)
     (to_polygonal ex_shape_of ex_embed_shape_of ex_generate_offsets)
     = to_polygonal ex_shape_of ex_embed_shape_of ex_generate_offsets ex_tets"
proof -
  have names: "names_shapes ex_shape_of"
    by (simp add: names_shapes_def ex_shape_of_def)
  have keeps: "keeps_shape ex_generate_offsets"
    by (simp add: keeps_shape_def ex_generate_offsets_def ex_offsets_def)
  have poly: "is_poly (ex_shape_of (el_shape (pt_elements ex_polygons)))"
    by (simp add: is_poly_def ex_shape_of_def ex_polygons_def)
  show ?thesis
    using to_polygonal_idempotent [OF names keeps, of ex_tets ex_embed_shape_of]
      to_polygonal_idempotent [OF names keeps, of ex_polygons ex_embed_shape_of]
      names keeps poly
    by (simp add: ex_tets_polyhedral)
qed

subsection \<open>Global ids on a worker without a local domain\<close>

text \<open>
  C4 says that \<^verbatim>\<open>generate_global_element_and_vertex_ids\<close> gives, on every worker, ids to
  each domain that holds the chosen topology, contiguous from 0 over all the workers.
  Two workers, the first with one domain of 4 elements and 9 vertices, the second without
  a local domain: when the options name the topology, the domain gets the vertex ids
  \<open>0, ..., 8\<close> and the element ids \<open>0, ..., 3\<close>. Without the option "topology" the second
  worker takes the name from \<^verbatim>\<open>domains[0]\<close>, the first element of an empty vector, and the
  run fails.
\<close>

theorem global_ids_fail_without_local_domain:
  "global_number_of_domains [[ex_domain 4 9], []] = 1 \<and>
   generate_global_element_and_vertex_ids ex_options [[ex_domain 4 9], []] =
     Some [[(ex_domain 4 9)\<lparr>dm_fields :=
              [(''global_vertex_ids'',
                \<lparr>fl_association = ''vertex'', fl_topology = ''mesh'',
                 fl_values = [0, 1, 2, 3, 4, 5, 6, 7, 8]\<rparr>),
               (''global_element_ids'',
                \<lparr>fl_association = ''element'', fl_topology = ''mesh'',
                 fl_values = [0, 1, 2, 3]\<rparr>)]\<rparr>],
           []] \<and>
   topo_name_of ex_no_options [] = None \<and>
   generate_global_element_and_vertex_ids ex_no_options [[ex_domain 4 9], []] = None"
  by code_simp

subsection \<open>No domain at all\<close>

text \<open>
  C7. When the global number of domains is zero, \<^verbatim>\<open>generate_global_element_and_vertex_ids\<close>
  and \<^verbatim>\<open>generate_partition_field\<close> return at once: no worker fails and the mesh of every
  worker is as it was, whatever the options and the rest of the driver are.
\<close>

theorem no_domains_returns_unchanged:
  assumes "global_number_of_domains meshes = 0"
  shows "generate_global_element_and_vertex_ids opts meshes = Some meshes \<and>
         generate_partition_field partition_body opts meshes = Some meshes"
  using assms
  by (simp add: generate_partition_field_def generate_global_element_and_vertex_ids_def)

theorem no_domains_returns_unchanged_witness:
  "global_number_of_domains [[], []] = 0 \<and>
   generate_global_element_and_vertex_ids ex_options [[], []] = Some [[], []] \<and>
   generate_partition_field (\<lambda>opts meshes. None) ex_options [[], []] = Some [[], []]"
  using no_domains_returns_unchanged [of "[[], []]" ex_options "\<lambda>opts meshes. None"]
  by (simp add: global_number_of_domains_def)

subsection \<open>Vertex-associated fields on generated sides\<close>

text \<open>
  C3. When a vertex-associated field is mapped onto the sides generated from a topology,
  the values of the original vertices are copied; a new vertex gets the mean of the
  values of the original vertices adjacent to it in the connectivity of the sides (only
  these enter the mean: the sum of their values in ascending order of the vertices,
  divided by their count), and a new vertex with no adjacent original vertex gets 0.
  Every side has an original vertex, as the sides written by \<^verbatim>\<open>generate_sides\<close> have; a new
  vertex without an adjacent original vertex is then one that no side uses.
\<close>

theorem vertex_field_on_sides:
  fixes conv :: "'v \<Rightarrow> 'f::{zero,one,plus,inverse}"
  assumes "iter = (if dimensions = 2 then 3 else 4)"
    and "orig \<le> length poly_field_data"
    and "orig \<le> length values_array" and "new \<le> length values_array"
    and "length conn mod iter = 0"
    and "sides_have_original iter conn orig"
  shows "\<exists>out. vertex_associated_field conv conn poly_field_data orig new dimensions values_array
                  = Some out \<and>
           length out = length values_array \<and>
           (\<forall>i<orig. out ! i = conv (poly_field_data ! i)) \<and>
           (\<forall>i. orig \<le> i \<and> i < new \<longrightarrow>
              (original_neighbors iter conn orig i \<noteq> [] \<longrightarrow>
                 out ! i = mean (map (\<lambda>u. conv (poly_field_data ! u))
                                   (original_neighbors iter conn orig i))) \<and>
              (original_neighbors iter conn orig i = [] \<longrightarrow> out ! i = 0))"
proof -
  have pos: "0 < iter"
    using assms(1) by simp
  from vertex_associated_field_values [OF assms(1-5), of conv] obtain out where
    run: "vertex_associated_field conv conn poly_field_data orig new dimensions values_array
            = Some out"
    and len: "length out = length values_array"
    and orig_vals: "\<forall>i<orig. out ! i = conv (poly_field_data ! i)"
    and new_vals: "\<forall>i. orig \<le> i \<and> i < new \<longrightarrow>
              out ! i = (if adjacent iter conn i = [] then 0
                         else mean (map (\<lambda>u. conv (poly_field_data ! u))
                                      (original_neighbors iter conn orig i)))"
    by blast
  have "(original_neighbors iter conn orig i \<noteq> [] \<longrightarrow>
           out ! i = mean (map (\<lambda>u. conv (poly_field_data ! u))
                             (original_neighbors iter conn orig i))) \<and>
        (original_neighbors iter conn orig i = [] \<longrightarrow> out ! i = 0)"
    if i: "orig \<le> i" "i < new" for i
  proof (cases "adjacent iter conn i = []")
    case True
    then have "original_neighbors iter conn orig i = []"
      by (simp add: original_neighbors_def)
    with True new_vals i show ?thesis
      by simp
  next
    case False
    with sides_original_neighbors [OF pos assms(5,6) i(1)]
    have "original_neighbors iter conn orig i \<noteq> []" .
    with False new_vals i show ?thesis
      by simp
  qed
  with run len orig_vals show ?thesis
    by blast
qed

text \<open>
  A triangle split into its three sides around the centroid: the centroid gets the mean
  6 of the values 3, 6 and 9 of the three points, and the point that no side uses gets 0.
\<close>

theorem vertex_field_on_sides_witness:
  "sides_have_original 3 ex_sides 3 \<and>
   vertex_associated_field (\<lambda>x. x) ex_sides ex_field 3 5 2 (replicate 5 0) =
     Some [3, 6, 9, 6, 0]"
proof -
  have "\<exists>out. vertex_associated_field (\<lambda>x. x) ex_sides ex_field 3 5 2 (replicate 5 0) = Some out"
    using vertex_field_on_sides
            [of 3 2 3 ex_field "replicate 5 0" 5 ex_sides "\<lambda>x. x", OF _ _ _ _ _ ex_sides_original]
    by (auto simp: ex_field_def ex_sides_def)
  with ex_sides_original show ?thesis
    by (simp add: ex_sides_field)
qed

end
